theory Spec2Isabelle
  imports Main
begin

section \<open>Python strings and the library functions the script calls\<close>

text \<open>
  A Python \<open>str\<close> is a sequence of Unicode code points; \<open>len\<close>, slicing and
  \<open>replace\<close> count code points, not bytes. A string is therefore a list of code points
  (natural numbers), and \<open>lit\<close> embeds an ASCII literal of the source.
\<close>

type_synonym codepoint = nat
type_synonym pystr = "codepoint list"

definition lit :: "string \<Rightarrow> pystr" where
  "lit cs = map of_char cs"

text \<open>\<open>s.replace(old, new)\<close> for a one-character \<open>old\<close>, the only form the script uses.\<close>

definition replace_char :: "codepoint \<Rightarrow> pystr \<Rightarrow> pystr \<Rightarrow> pystr" where
  "replace_char old new s = concat (map (\<lambda>c. if c = old then new else [c]) s)"

text \<open>\<open>str(n)\<close> for an int: decimal digits, with a leading minus sign below zero.\<close>

definition digit_char :: "nat \<Rightarrow> codepoint" where
  "digit_char d = 48 + d"

fun str_nat :: "nat \<Rightarrow> pystr" where
  "str_nat n = (if n < 10 then [digit_char n] else str_nat (n div 10) @ [digit_char (n mod 10)])"

declare str_nat.simps [simp del]

definition str_int :: "int \<Rightarrow> pystr" where
  "str_int i = (if i < 0 then 45 # str_nat (nat (- i)) else str_nat (nat i))"

text \<open>
  The format specification \<open>03d\<close>: the decimal digits, padded with zeros on the left to a
  total width of 3; the sign, if any, comes first and counts towards the width.
\<close>

definition zfill :: "nat \<Rightarrow> pystr \<Rightarrow> pystr" where
  "zfill w s = replicate (w - length s) 48 @ s"

definition format_03d :: "int \<Rightarrow> pystr" where
  "format_03d i = (if i < 0 then 45 # zfill 2 (str_nat (nat (- i))) else zfill 3 (str_nat (nat i)))"

text \<open>
  \<open>random.randint(a, b)\<close> and \<open>random.choices(population, k=k)\<close>. The generator is
  the environment's: a raw draw \<open>r\<close> is reduced into the range, so every value of the
  range can come out and nothing else can.
\<close>

definition randint :: "int \<Rightarrow> int \<Rightarrow> nat \<Rightarrow> int" where
  "randint a b r = a + int (r mod nat (b - a + 1))"

definition choices :: "pystr \<Rightarrow> nat \<Rightarrow> (nat \<Rightarrow> nat) \<Rightarrow> pystr" where
  "choices population k rnd = map (\<lambda>j. population ! (rnd j mod length population)) [0..<k]"

text \<open>\<open>os.path.join(a, b)\<close> of \<open>posixpath\<close>, for two components.\<close>

definition os_path_join :: "pystr \<Rightarrow> pystr \<Rightarrow> pystr" where
  "os_path_join a b =
     (if b \<noteq> [] \<and> hd b = 47 then b
      else if a = [] \<or> last a = 47 then a @ b
      else a @ [47] @ b)"

section \<open>Exceptions and the remote source\<close>

text \<open>
  The exceptions the script distinguishes. Every constructor is a subclass of
  \<open>Exception\<close>; \<open>OtherException\<close> stands for all the remaining ones (network
  failures, malformed responses, encoding errors) and carries \<open>str(e)\<close>.
  \<open>IOError\<close> is Python 3's \<open>OSError\<close>. Interrupts of the process, which are not
  subclasses of \<open>Exception\<close>, are not outcomes of a lookup and are left out.
\<close>

datatype exn =
    PageError
  | DisambiguationError (options: "pystr list")
  | IOError pystr
  | IndexError
  | OtherException pystr

text \<open>
  \<open>str(e)\<close>, which the script prints in the last handler of the fetch and after a
  failed write. No handler that prints it is reached with a \<open>PageError\<close> or a
  \<open>DisambiguationError\<close> of the fetch, and their texts are left empty.
\<close>

fun str_exn :: "exn \<Rightarrow> pystr" where
  "str_exn PageError = []"
| "str_exn (DisambiguationError opts) = []"
| "str_exn (IOError m) = m"
| "str_exn IndexError = lit ''list index out of range''"
| "str_exn (OtherException m) = m"

text \<open>
  The \<open>wikipedia\<close> package as the script sees it during one call of
  \<open>get_random_wikipedia_article\<close>: each operation either returns or raises. Of the
  page object only \<open>title\<close> is read.
\<close>

record page =
  title :: pystr

record remote =
  set_lang :: "pystr \<Rightarrow> exn + unit"
  random_title :: "exn + pystr"
  page_lookup :: "pystr \<Rightarrow> exn + page"
  summary_lookup :: "pystr \<Rightarrow> int \<Rightarrow> exn + pystr"

datatype call = SetLang pystr | Random | Page pystr | Summary pystr int

section \<open>get_random_wikipedia_article\<close>

text \<open>
  The result of one call: what it returns or raises (\<open>Inl\<close> is an exception that leaves
  the function, \<open>Inr None\<close> is Python's \<open>None\<close>), the remote operations it invoked in
  order, and the lines it printed.
\<close>

record fetch_result =
  outcome :: "exn + (pystr \<times> pystr) option"
  calls :: "call list"
  printed :: "pystr list"

text \<open>
  \<open>wikipedia.page(t, auto_suggest=False, redirect=True)\<close> followed by
  \<open>wikipedia.summary(t, sentences=n)\<close> and the pair \<open>(page.title, summary_text)\<close>:
  lines 15 to 18, and again lines 26 to 28 with \<open>e.options[0]\<close> for \<open>t\<close>.
\<close>

definition page_and_summary :: "remote \<Rightarrow> pystr \<Rightarrow> int \<Rightarrow> (exn + pystr \<times> pystr) \<times> call list" where
  "page_and_summary r t n =
     (case page_lookup r t of
        Inl e \<Rightarrow> (Inl e, [Page t])
      | Inr p \<Rightarrow>
          (case summary_lookup r t n of
             Inl e \<Rightarrow> (Inl e, [Page t, Summary t n])
           | Inr summary_text \<Rightarrow> (Inr (title p, summary_text), [Page t, Summary t n])))"

text \<open>The body of the outer \<open>try\<close>, lines 9 to 18.\<close>

definition try_body :: "remote \<Rightarrow> int \<Rightarrow> (exn + pystr \<times> pystr) \<times> call list" where
  "try_body r n =
     (case set_lang r (lit ''en'') of
        Inl e \<Rightarrow> (Inl e, [SetLang (lit ''en'')])
      | Inr _ \<Rightarrow>
          (case random_title r of
             Inl e \<Rightarrow> (Inl e, [SetLang (lit ''en''), Random])
           | Inr t \<Rightarrow>
               (case page_and_summary r t n of
                  (res, tr) \<Rightarrow> (res, [SetLang (lit ''en''), Random] @ tr))))"

text \<open>
  The handlers, lines 19 to 33. The \<open>print\<close> of line 24 reads \<open>e.options[0]\<close> before
  the inner \<open>try\<close> begins, so an empty list of options raises \<open>IndexError\<close> inside the
  handler, where no other clause of the same \<open>try\<close> statement catches it.
\<close>

definition disambiguation_message :: "pystr \<Rightarrow> pystr" where
  "disambiguation_message c = lit ''Disambiguation encountered. Trying '' @ [39] @ c @ [39, 46]"

definition get_random_wikipedia_article :: "remote \<Rightarrow> int \<Rightarrow> fetch_result" where
  "get_random_wikipedia_article r num_sentences =
     (case try_body r num_sentences of
        (Inr res, tr) \<Rightarrow> \<lparr>outcome = Inr (Some res), calls = tr, printed = []\<rparr>
      | (Inl e, tr) \<Rightarrow>
          (case e of
             PageError \<Rightarrow>
               \<lparr>outcome = Inr None, calls = tr,
                printed = [lit ''Page not found for random article. Retrying...'']\<rparr>
           | DisambiguationError opts \<Rightarrow>
               (case opts of
                  [] \<Rightarrow> \<lparr>outcome = Inl IndexError, calls = tr, printed = []\<rparr>
                | c # _ \<Rightarrow>
                    (case page_and_summary r c num_sentences of
                       (Inr res, tr2) \<Rightarrow>
                         \<lparr>outcome = Inr (Some res), calls = tr @ tr2,
                          printed = [disambiguation_message c]\<rparr>
                     | (Inl _, tr2) \<Rightarrow>
                         \<lparr>outcome = Inr None, calls = tr @ tr2,
                          printed = [disambiguation_message c]\<rparr>))
           | _ \<Rightarrow>
               \<lparr>outcome = Inr None, calls = tr,
                printed = [lit ''An error occurred: '' @ str_exn e @ lit ''. Skipping...'']\<rparr>))"

section \<open>create_wiki_files\<close>

text \<open>
  What the environment decides in one iteration of the loop: the two random draws, the
  behaviour of the remote source during the fetch, and whether \<open>open\<close> and \<open>write\<close>
  complete (\<open>None\<close>) or raise. Before the loop it decides whether \<open>os.makedirs\<close>
  completes. The iterations are numbered from 0 and there are infinitely many of them,
  since the loop has no bound.
\<close>

record iteration =
  rand_sentences :: nat
  remote_of :: remote
  rand_digits :: "nat \<Rightarrow> nat"
  write_result :: "exn option"

record environment =
  makedirs_result :: "exn option"
  iter :: "nat \<Rightarrow> iteration"

text \<open>
  The two local counters and the visible effects: the paths \<open>os.path.exists\<close> finds,
  the completed writes in order (file name and content; a later write to the same name
  replaces the earlier file), the printed lines and the remote operations invoked.
  A write that raises is not recorded, whatever it left on the disk.
\<close>

record state =
  files_created :: int
  attempts :: int
  existing :: "pystr set"
  written :: "(pystr \<times> pystr) list"
  stdout :: "pystr list"
  remote_calls :: "call list"

text \<open>Line 61 and line 62.\<close>

definition base_name_of :: "pystr \<Rightarrow> pystr" where
  "base_name_of topic =
     take 30 (replace_char 47 [95] (replace_char 41 [] (replace_char 40 [] (replace_char 32 [95] topic))))"

definition file_name_of :: "pystr \<Rightarrow> int \<Rightarrow> pystr \<Rightarrow> pystr \<Rightarrow> pystr" where
  "file_name_of output_folder fc base_name unique_id =
     os_path_join output_folder (format_03d fc @ [95] @ base_name @ [95] @ unique_id @ lit ''.txt'')"

definition progress_message :: "int \<Rightarrow> int \<Rightarrow> pystr \<Rightarrow> pystr" where
  "progress_message fc num_files topic =
     [10003] @ lit '' File '' @ str_int fc @ [47] @ str_int num_files @ lit '' created ('' @ topic @ lit '').''"

definition write_error_message :: "pystr \<Rightarrow> exn \<Rightarrow> pystr" where
  "write_error_message file_name e = lit ''Error creating file '' @ file_name @ lit '': '' @ str_exn e"

text \<open>Line 50 and line 58: the fetch of an iteration and its random suffix.\<close>

definition fetch_of :: "iteration \<Rightarrow> fetch_result" where
  "fetch_of it = get_random_wikipedia_article (remote_of it) (randint 4 7 (rand_sentences it))"

definition unique_id_of :: "iteration \<Rightarrow> pystr" where
  "unique_id_of it = choices (lit ''0123456789'') 4 (rand_digits it)"

text \<open>
  One iteration of the loop, lines 47 to 74. An exception that no handler of the loop
  catches (one that leaves the fetch, or one of \<open>open\<close>/\<open>write\<close> that is not an
  \<open>IOError\<close>) ends the function: \<open>Inl\<close>.
\<close>

definition loop_body :: "pystr \<Rightarrow> int \<Rightarrow> iteration \<Rightarrow> state \<Rightarrow> exn + state" where
  "loop_body output_folder num_files it s =
     (let s1 = s\<lparr>attempts := attempts s + 1\<rparr>;
          fr = fetch_of it;
          s2 = s1\<lparr>stdout := stdout s1 @ printed fr, remote_calls := remote_calls s1 @ calls fr\<rparr>
      in case outcome fr of
           Inl e \<Rightarrow> Inl e
         | Inr None \<Rightarrow> Inr s2
         | Inr (Some (topic, logical_content)) \<Rightarrow>
             (let s3 = s2\<lparr>files_created := files_created s2 + 1\<rparr>;
                  unique_id = unique_id_of it;
                  base_name = base_name_of topic;
                  file_name = file_name_of output_folder (files_created s3) base_name unique_id
              in case write_result it of
                   None \<Rightarrow>
                     Inr (s3\<lparr>written := written s3 @ [(file_name, logical_content)],
                             stdout := (if files_created s3 mod 10 = 0
                                        then stdout s3 @ [progress_message (files_created s3) num_files topic]
                                        else stdout s3)\<rparr>)
                 | Some e \<Rightarrow>
                     (case e of
                        IOError m \<Rightarrow>
                          Inr (s3\<lparr>stdout := stdout s3 @ [write_error_message file_name e],
                                  files_created := files_created s3 - 1\<rparr>)
                      | _ \<Rightarrow> Inl e)))"

text \<open>
  The \<open>while\<close> loop of line 46, from iteration \<open>k\<close> on. It has no bound on the number
  of iterations: \<open>None\<close> is the run that never leaves the loop.
\<close>

partial_function (option) while_loop ::
  "environment \<Rightarrow> pystr \<Rightarrow> int \<Rightarrow> nat \<Rightarrow> state \<Rightarrow> (exn + state) option" where
  "while_loop env output_folder num_files k s =
     (if files_created s < num_files then
        (case loop_body output_folder num_files (iter env k) s of
           Inl e \<Rightarrow> Some (Inl e)
         | Inr s' \<Rightarrow> while_loop env output_folder num_files (Suc k) s')
      else Some (Inr s))"

definition start_message :: "int \<Rightarrow> pystr" where
  "start_message num_files =
     lit ''Starting to generate '' @ str_int num_files @ lit '' files with random Wikipedia articles...'' @ [10]"

definition final_message :: "int \<Rightarrow> int \<Rightarrow> pystr" where
  "final_message fc att =
     [10] @ lit ''Generation completed. Created '' @ str_int fc @
     lit '' files from random Wikipedia articles in '' @ str_int att @ lit '' attempts.''"

text \<open>Lines 37 to 43: the directory, the counters, the first line printed.\<close>

definition prologue :: "environment \<Rightarrow> state \<Rightarrow> pystr \<Rightarrow> int \<Rightarrow> exn + state" where
  "prologue env w output_folder num_files =
     (case (if output_folder \<in> existing w then None else makedirs_result env) of
        Some e \<Rightarrow> Inl e
      | None \<Rightarrow>
          Inr (w\<lparr>existing := insert output_folder (existing w),
                 files_created := 0, attempts := 0,
                 stdout := stdout w @ [start_message num_files]\<rparr>))"

text \<open>
  The whole function, started in the world \<open>w\<close> (whose two counter fields are
  overwritten by lines 40 and 41). It returns the final state so that the effects can be
  read off; the Python function returns nothing.
\<close>

definition create_wiki_files :: "environment \<Rightarrow> state \<Rightarrow> pystr \<Rightarrow> int \<Rightarrow> (exn + state) option" where
  "create_wiki_files env w output_folder num_files =
     (case prologue env w output_folder num_files of
        Inl e \<Rightarrow> Some (Inl e)
      | Inr s0 \<Rightarrow>
          (case while_loop env output_folder num_files 0 s0 of
             None \<Rightarrow> None
           | Some (Inl e) \<Rightarrow> Some (Inl e)
           | Some (Inr s) \<Rightarrow>
               Some (Inr (s\<lparr>stdout := stdout s @ [final_message (files_created s) (attempts s)]\<rparr>))))"

section \<open>Notions used to state the properties\<close>

text \<open>
  How an iteration ends, read off the environment: the fetch returned \<open>None\<close>
  (\<open>Skipped\<close>), the file was written (\<open>Written\<close>), the write raised an
  \<open>IOError\<close> (\<open>WriteFailed\<close>), or an exception left the loop (\<open>Raised\<close>).
\<close>

datatype ending = Skipped | Written | WriteFailed | Raised

definition ending_of :: "iteration \<Rightarrow> ending" where
  "ending_of it =
     (case outcome (fetch_of it) of
        Inl e \<Rightarrow> Raised
      | Inr None \<Rightarrow> Skipped
      | Inr (Some res) \<Rightarrow>
          (case write_result it of
             None \<Rightarrow> Written
           | Some e \<Rightarrow> (case e of IOError m \<Rightarrow> WriteFailed | _ \<Rightarrow> Raised)))"

text \<open>
  The state in which the loop condition is evaluated for the iteration numbered \<open>k\<close>,
  that is, after \<open>k\<close> complete iterations from \<open>s0\<close>; \<open>None\<close> when the loop has
  been left before.
\<close>

fun after_iterations :: "environment \<Rightarrow> pystr \<Rightarrow> int \<Rightarrow> state \<Rightarrow> nat \<Rightarrow> state option" where
  "after_iterations env output_folder num_files s0 0 = Some s0"
| "after_iterations env output_folder num_files s0 (Suc k) =
     (case after_iterations env output_folder num_files s0 k of
        None \<Rightarrow> None
      | Some s \<Rightarrow>
          (if files_created s < num_files then
             (case loop_body output_folder num_files (iter env k) s of
                Inl e \<Rightarrow> None
              | Inr s' \<Rightarrow> Some s')
           else None))"

text \<open>The writes completed since the world \<open>w\<close> in which the run started.\<close>

definition written_in_run :: "state \<Rightarrow> state \<Rightarrow> (pystr \<times> pystr) list" where
  "written_in_run w s = drop (length (written w)) (written s)"

text \<open>The number a string of decimal digits denotes.\<close>

definition decimal_value :: "pystr \<Rightarrow> nat" where
  "decimal_value ds = foldl (\<lambda>acc c. 10 * acc + (c - 48)) 0 ds"

section \<open>Stub environments\<close>

text \<open>
  Fake sources and file systems of the kind a test of the script would inject: a source
  that always answers, one whose page is missing, one whose title is ambiguous (with and
  without candidates), one that redirects, and iterations built from them.
\<close>

definition reliable_remote :: remote where
  "reliable_remote =
     \<lparr>set_lang = (\<lambda>_. Inr ()), random_title = Inr (lit ''Alan Turing''),
      page_lookup = (\<lambda>t. Inr \<lparr>title = t\<rparr>),
      summary_lookup = (\<lambda>t n. Inr (lit ''A mathematician.''))\<rparr>"

definition missing_remote :: remote where
  "missing_remote = reliable_remote\<lparr>page_lookup := (\<lambda>t. Inl PageError)\<rparr>"

definition ambiguous_remote :: remote where
  "ambiguous_remote =
     reliable_remote
       \<lparr>random_title := Inr (lit ''Mercury''),
        page_lookup := (\<lambda>t. if t = lit ''Mercury''
                              then Inl (DisambiguationError [lit ''Mercury (planet)'', lit ''Mercury (element)''])
                              else Inr \<lparr>title = t\<rparr>)\<rparr>"

definition ambiguous_empty :: remote where
  "ambiguous_empty =
     reliable_remote
       \<lparr>random_title := Inr (lit ''Mercury''),
        page_lookup := (\<lambda>t. Inl (DisambiguationError []))\<rparr>"

definition redirecting_remote :: remote where
  "redirecting_remote =
     reliable_remote
       \<lparr>random_title := Inr (lit ''UK''),
        page_lookup := (\<lambda>t. Inr \<lparr>title = lit ''United Kingdom''\<rparr>)\<rparr>"

definition long_title_remote :: remote where
  "long_title_remote =
     reliable_remote
       \<lparr>random_title := Inr (lit ''Foo (Bar)/Baz Very Long Title Exceeding Thirty Chars'')\<rparr>"

definition good_iteration :: iteration where
  "good_iteration =
     \<lparr>rand_sentences = 1, remote_of = reliable_remote, rand_digits = (\<lambda>j. j), write_result = None\<rparr>"

definition missing_iteration :: iteration where
  "missing_iteration = good_iteration\<lparr>remote_of := missing_remote\<rparr>"

definition failing_write_iteration :: iteration where
  "failing_write_iteration = good_iteration\<lparr>write_result := Some (IOError (lit ''No space left on device''))\<rparr>"

definition crashing_iteration :: iteration where
  "crashing_iteration = good_iteration\<lparr>remote_of := ambiguous_empty\<rparr>"

definition long_title_iteration :: iteration where
  "long_title_iteration = good_iteration\<lparr>remote_of := long_title_remote\<rparr>"

definition env_of :: "(nat \<Rightarrow> iteration) \<Rightarrow> environment" where
  "env_of its = \<lparr>makedirs_result = None, iter = its\<rparr>"

definition empty_world :: state where
  "empty_world =
     \<lparr>files_created = 0, attempts = 0, existing = {}, written = [], stdout = [], remote_calls = []\<rparr>"

section \<open>File names\<close>

lemma decimal_value_append:
  "decimal_value (xs @ [c]) = 10 * decimal_value xs + (c - 48)"
  by (simp add: decimal_value_def)

lemma decimal_value_str_nat: "decimal_value (str_nat n) = n"
proof (induction n rule: str_nat.induct)
  case (1 n)
  show ?case
  proof (cases "n < 10")
    case True
    then show ?thesis by (subst str_nat.simps) (simp add: decimal_value_def digit_char_def)
  next
    case False
    with 1 show ?thesis
      by (subst str_nat.simps) (simp add: decimal_value_append digit_char_def)
  qed
qed

lemma decimal_value_zeros: "decimal_value (replicate k 48 @ s) = decimal_value s"
proof -
  have "foldl (\<lambda>acc c. 10 * acc + (c - 48)) 0 (replicate k (48::nat)) = 0"
    by (induction k) simp_all
  then show ?thesis by (simp add: decimal_value_def)
qed

lemma decimal_value_format_03d: "0 \<le> i \<Longrightarrow> decimal_value (format_03d i) = nat i"
  by (simp add: format_03d_def zfill_def decimal_value_zeros decimal_value_str_nat)

lemma str_nat_digits: "set (str_nat n) \<subseteq> {48..57}"
proof (induction n rule: str_nat.induct)
  case (1 n)
  show ?case
  proof (cases "n < 10")
    case True
    then show ?thesis by (subst str_nat.simps) (simp add: digit_char_def)
  next
    case False
    have "n mod 10 < 10" by simp
    then have "digit_char (n mod 10) \<in> {48..57}" unfolding digit_char_def by auto
    with False 1 show ?thesis
      by (subst str_nat.simps) simp
  qed
qed

lemma str_nat_nonempty: "str_nat n \<noteq> []"
  by (subst str_nat.simps) simp

lemma format_03d_digits: "0 \<le> i \<Longrightarrow> set (format_03d i) \<subseteq> {48..57}"
  using str_nat_digits [of "nat i"] by (auto simp: format_03d_def zfill_def)

lemma format_03d_nonempty: "format_03d i \<noteq> []"
  by (simp add: format_03d_def zfill_def str_nat_nonempty)

lemma format_03d_length: "0 \<le> i \<Longrightarrow> 3 \<le> length (format_03d i)"
  by (simp add: format_03d_def zfill_def)

lemma str_nat_length: "n < 1000 \<Longrightarrow> length (str_nat n) \<le> 3"
  apply (subst str_nat.simps)
  apply (subst str_nat.simps)
  apply (subst str_nat.simps)
  apply auto
  done

lemma format_03d_length3: "0 \<le> i \<Longrightarrow> i < 1000 \<Longrightarrow> length (format_03d i) = 3"
  using str_nat_length [of "nat i"] by (simp add: format_03d_def zfill_def)

lemma format_03d_inj:
  assumes "0 \<le> i" "0 \<le> j" "format_03d i = format_03d j"
  shows "i = j"
proof -
  from assms(3) have "decimal_value (format_03d i) = decimal_value (format_03d j)" by simp
  with assms(1,2) show ?thesis by (simp add: decimal_value_format_03d)
qed

lemma os_path_join_inj:
  assumes "x \<noteq> []" "hd x \<noteq> 47" "y \<noteq> []" "hd y \<noteq> 47" "os_path_join a x = os_path_join a y"
  shows "x = y"
  using assms by (auto simp: os_path_join_def split: if_splits)

lemma prefix_before_underscore:
  fixes a b :: pystr
  assumes "95 \<notin> set a" "95 \<notin> set b" "a @ 95 # r = b @ 95 # r'"
  shows "a = b"
proof -
  have "takeWhile (\<lambda>c. c \<noteq> 95) (a @ 95 # r) = a" using assms(1)
    by (auto simp: takeWhile_tail takeWhile_eq_all_conv)
  moreover have "takeWhile (\<lambda>c. c \<noteq> 95) (b @ 95 # r') = b" using assms(2)
    by (auto simp: takeWhile_tail takeWhile_eq_all_conv)
  ultimately show ?thesis using assms(3) by simp
qed

lemma file_name_of_inj:
  assumes "0 \<le> i" "0 \<le> j" "file_name_of f i b u = file_name_of f j b' u'"
  shows "i = j"
proof -
  let ?x = "format_03d i @ [95] @ b @ [95] @ u @ lit ''.txt''"
  let ?y = "format_03d j @ [95] @ b' @ [95] @ u' @ lit ''.txt''"
  have di: "set (format_03d i) \<subseteq> {48..57}" and dj: "set (format_03d j) \<subseteq> {48..57}"
    using assms(1,2) by (simp_all add: format_03d_digits)
  have hx: "hd ?x = hd (format_03d i)" "hd ?y = hd (format_03d j)"
    using format_03d_nonempty by simp_all
  have "hd (format_03d i) \<in> {48..57}" "hd (format_03d j) \<in> {48..57}"
    using di dj format_03d_nonempty [of i] format_03d_nonempty [of j] hd_in_set by blast+
  then have "hd ?x \<noteq> 47" "hd ?y \<noteq> 47" using hx by auto
  moreover have "?x \<noteq> []" "?y \<noteq> []" by simp_all
  moreover from assms(3) have "os_path_join f ?x = os_path_join f ?y" by (simp add: file_name_of_def)
  ultimately have "?x = ?y" using os_path_join_inj [of ?x ?y f] by blast
  moreover have "95 \<notin> set (format_03d i)" "95 \<notin> set (format_03d j)" using di dj by auto
  ultimately have "format_03d i = format_03d j"
    using prefix_before_underscore [of "format_03d i" "format_03d j"] by simp
  with assms(1,2) show ?thesis using format_03d_inj by blast
qed

lemma unique_id_of_digits:
  "length (unique_id_of it) = 4 \<and> set (unique_id_of it) \<subseteq> {48..57}"
proof -
  have l: "lit ''0123456789'' = [48,49,50,51,52,53,54,55,56,57]" by (simp add: lit_def)
  have "[48,49,50,51,52,53,54,55,56,57::nat] ! (r mod 10) \<in> {48..57}" for r
  proof -
    have "[48,49,50,51,52,53,54,55,56,57::nat] ! (r mod 10) \<in> set [48,49,50,51,52,53,54,55,56,57::nat]"
      by (rule nth_mem) simp
    then show ?thesis by auto
  qed
  then show ?thesis by (auto simp: unique_id_of_def choices_def l)
qed

lemma base_name_of_props:
  "length (base_name_of topic) \<le> 30 \<and> set (base_name_of topic) \<inter> {32, 40, 41, 47} = {}"
  by (auto simp: base_name_of_def replace_char_def dest!: in_set_takeD split: if_splits)

section \<open>One iteration and the loop\<close>

lemma loop_body_Skipped:
  "ending_of it = Skipped \<Longrightarrow>
   loop_body f N it s =
     Inr (s\<lparr>attempts := attempts s + 1, stdout := stdout s @ printed (fetch_of it),
            remote_calls := remote_calls s @ calls (fetch_of it)\<rparr>)"
  by (auto simp: loop_body_def ending_of_def Let_def split: sum.splits option.splits exn.splits prod.splits)

lemma loop_body_Written:
  "ending_of it = Written \<Longrightarrow>
   \<exists>topic content s'. outcome (fetch_of it) = Inr (Some (topic, content)) \<and> write_result it = None \<and>
      loop_body f N it s = Inr s' \<and> attempts s' = attempts s + 1 \<and>
      files_created s' = files_created s + 1 \<and> existing s' = existing s \<and>
      remote_calls s' = remote_calls s @ calls (fetch_of it) \<and>
      written s' = written s @
        [(file_name_of f (files_created s + 1) (base_name_of topic) (unique_id_of it), content)]"
  by (auto simp: loop_body_def ending_of_def Let_def split: sum.splits option.splits exn.splits prod.splits)

lemma loop_body_WriteFailed:
  "ending_of it = WriteFailed \<Longrightarrow>
   \<exists>topic content m s'. outcome (fetch_of it) = Inr (Some (topic, content)) \<and> write_result it = Some (IOError m) \<and>
      loop_body f N it s = Inr s' \<and> attempts s' = attempts s + 1 \<and>
      files_created s' = files_created s \<and> existing s' = existing s \<and>
      remote_calls s' = remote_calls s @ calls (fetch_of it) \<and>
      written s' = written s \<and>
      stdout s' = stdout s @ printed (fetch_of it) @
        [write_error_message (file_name_of f (files_created s + 1) (base_name_of topic) (unique_id_of it)) (IOError m)]"
  by (auto simp: loop_body_def ending_of_def Let_def split: sum.splits option.splits exn.splits prod.splits)

lemma loop_body_Raised:
  "ending_of it = Raised \<longleftrightarrow> (\<exists>e. loop_body f N it s = Inl e)"
  by (auto simp: loop_body_def ending_of_def Let_def split: sum.splits option.splits exn.splits prod.splits)

lemma while_loop_exit:
  "\<not> files_created s < N \<Longrightarrow> while_loop env f N k s = Some (Inr s)"
  by (simp add: while_loop.simps)

lemma while_loop_step:
  "files_created s < N \<Longrightarrow> loop_body f N (iter env k) s = Inr s' \<Longrightarrow>
   while_loop env f N k s = while_loop env f N (Suc k) s'"
  by (subst while_loop.simps) simp

lemma while_loop_raise:
  "files_created s < N \<Longrightarrow> loop_body f N (iter env k) s = Inl e \<Longrightarrow>
   while_loop env f N k s = Some (Inl e)"
  by (subst while_loop.simps) simp

lemma loop_unfold:
  "after_iterations env f N s0 k = Some s \<Longrightarrow> while_loop env f N 0 s0 = while_loop env f N k s"
proof (induction k arbitrary: s)
  case 0
  then show ?case by simp
next
  case (Suc k)
  from Suc.prems obtain s1 where a: "after_iterations env f N s0 k = Some s1"
    and g: "files_created s1 < N" and b: "loop_body f N (iter env k) s1 = Inr s"
    by (auto split: option.splits if_splits sum.splits)
  from Suc.IH [OF a] while_loop_step [OF g b] show ?case by simp
qed

lemma loop_result:
  assumes "while_loop env f N k s = Some r" "after_iterations env f N s0 k = Some s"
  shows "\<exists>k' s'. k \<le> k' \<and> after_iterations env f N s0 k' = Some s' \<and>
           (if files_created s' < N then (\<exists>e. r = Inl e \<and> loop_body f N (iter env k') s' = Inl e)
            else r = Inr s')"
  using assms
proof (induction env f N k s r rule: while_loop.raw_induct [rotated, consumes 1, case_names step])
  case (step w env f N k s r)
  note 1 = step
  show ?case
  proof (cases "files_created s < N")
    case False
    with 1 show ?thesis by (intro exI [of _ k] exI [of _ s]) simp
  next
    case True
    show ?thesis
    proof (cases "loop_body f N (iter env k) s")
      case (Inl e)
      with True 1 show ?thesis by (intro exI [of _ k] exI [of _ s]) auto
    next
      case (Inr s1)
      with True 1 have "w env f N (Suc k) s1 = Some r" by simp
      moreover from True Inr 1 have "after_iterations env f N s0 (Suc k) = Some s1" by simp
      ultimately obtain k' s' where "Suc k \<le> k'" "after_iterations env f N s0 k' = Some s'"
        "(if files_created s' < N then (\<exists>e. r = Inl e \<and> loop_body f N (iter env k') s' = Inl e)
            else r = Inr s')"
        using 1(1) by blast
      then show ?thesis by (intro exI [of _ k'] exI [of _ s']) simp
    qed
  qed
qed

lemma after_attempts:
  "after_iterations env f N s0 k = Some s \<Longrightarrow>
   attempts s = attempts s0 + int k \<and> existing s = existing s0"
proof (induction k arbitrary: s)
  case 0
  then show ?case by simp
next
  case (Suc k)
  from Suc.prems obtain s1 where a: "after_iterations env f N s0 k = Some s1"
    and b: "loop_body f N (iter env k) s1 = Inr s"
    by (auto split: option.splits if_splits sum.splits)
  from b have "attempts s = attempts s1 + 1 \<and> existing s = existing s1"
    by (auto simp: loop_body_def Let_def split: sum.splits option.splits exn.splits prod.splits)
  with Suc.IH [OF a] show ?case by simp
qed

lemma after_count:
  "after_iterations env f N s0 k = Some s \<Longrightarrow>
   files_created s = files_created s0 + int (length (filter (\<lambda>j. ending_of (iter env j) = Written) [0..<k]))
   \<and> (\<forall>j<k. ending_of (iter env j) \<noteq> Raised)"
proof (induction k arbitrary: s)
  case 0
  then show ?case by simp
next
  case (Suc k)
  from Suc.prems obtain s1 where a: "after_iterations env f N s0 k = Some s1"
    and b: "loop_body f N (iter env k) s1 = Inr s"
    by (auto split: option.splits if_splits sum.splits)
  from b have nr: "ending_of (iter env k) \<noteq> Raised"
    using loop_body_Raised [of "iter env k" f N s1] by auto
  have "files_created s = files_created s1 + (if ending_of (iter env k) = Written then 1 else 0)"
  proof (cases "ending_of (iter env k)")
    case Skipped
    from loop_body_Skipped [OF this, of f N s1] b show ?thesis using Skipped by auto
  next
    case Written
    from loop_body_Written [OF this, of f N s1] b show ?thesis using Written by auto
  next
    case WriteFailed
    from loop_body_WriteFailed [OF this, of f N s1] b show ?thesis using WriteFailed by auto
  next
    case Raised
    with nr show ?thesis by simp
  qed
  with Suc.IH [OF a] nr show ?case by (auto simp: less_Suc_eq)
qed

lemma after_progress:
  assumes "after_iterations env f N s0 k = Some s" "files_created s < N"
    "ending_of (iter env k) \<noteq> Raised"
  shows "\<exists>s'. after_iterations env f N s0 (Suc k) = Some s'"
proof -
  from assms(3) obtain s' where "loop_body f N (iter env k) s = Inr s'"
    using loop_body_Raised [of "iter env k" f N s] by (cases "loop_body f N (iter env k) s") auto
  with assms(1,2) show ?thesis by simp
qed

lemma count_unbounded:
  assumes "\<forall>k. \<exists>k'\<ge>k. P k'"
  shows "\<exists>k. m \<le> length (filter P [0..<k])"
proof (induction m)
  case 0
  then show ?case by simp
next
  case (Suc m)
  then obtain k where k: "m \<le> length (filter P [0..<k])" by blast
  from assms obtain k' where k': "k \<le> k'" "P k'" by blast
  from k'(1) obtain d where d: "k' = k + d" by (auto simp: le_iff_add)
  have "[0..<Suc k'] = [0..<k] @ [k..<k'] @ [k']"
    unfolding d using upt_add_eq_append [of 0 k d] by simp
  with k k'(2) have "Suc m \<le> length (filter P [0..<Suc k'])" by simp
  then show ?case by blast
qed

lemma after_terminates:
  assumes nr: "\<forall>k. ending_of (iter env k) \<noteq> Raised"
    and inf: "\<forall>k. \<exists>k'\<ge>k. ending_of (iter env k') = Written"
  shows "\<exists>k s. after_iterations env f N s0 k = Some s \<and> \<not> files_created s < N"
proof (rule ccontr)
  assume c: "\<not> ?thesis"
  have all: "\<exists>s. after_iterations env f N s0 k = Some s" for k
  proof (induction k)
    case 0
    then show ?case by simp
  next
    case (Suc k)
    then obtain s where s: "after_iterations env f N s0 k = Some s" by blast
    with c have "files_created s < N" by blast
    from after_progress [OF s this] nr show ?case by blast
  qed
  from count_unbounded [OF inf, of "nat (N - files_created s0)"]
  obtain k where k: "nat (N - files_created s0) \<le> length (filter (\<lambda>j. ending_of (iter env j) = Written) [0..<k])"
    by blast
  from all obtain s where s: "after_iterations env f N s0 k = Some s" by blast
  from after_count [OF s] k have "\<not> files_created s < N" by linarith
  with c s show False by blast
qed

lemma after_le:
  "after_iterations env f N s0 k = Some s \<Longrightarrow> files_created s0 \<le> N \<Longrightarrow>
   files_created s0 \<le> files_created s \<and> files_created s \<le> N"
proof (induction k arbitrary: s)
  case 0
  then show ?case by simp
next
  case (Suc k)
  from Suc.prems obtain s1 where a: "after_iterations env f N s0 k = Some s1"
    and g: "files_created s1 < N"
    and b: "loop_body f N (iter env k) s1 = Inr s"
    by (auto split: option.splits if_splits sum.splits)
  from b have "files_created s = files_created s1 \<or> files_created s = files_created s1 + 1"
    by (auto simp: loop_body_def Let_def split: sum.splits option.splits exn.splits prod.splits)
  with Suc.IH [OF a Suc.prems(2)] g show ?case by auto
qed

lemma after_written:
  "after_iterations env f N s0 k = Some s \<Longrightarrow>
   \<exists>new. written s = written s0 @ new \<and> int (length new) = files_created s - files_created s0 \<and>
     (\<forall>i<length new. \<exists>j<k. \<exists>topic content.
         outcome (fetch_of (iter env j)) = Inr (Some (topic, content)) \<and>
         ending_of (iter env j) = Written \<and>
         new ! i = (file_name_of f (files_created s0 + int i + 1) (base_name_of topic)
                      (unique_id_of (iter env j)), content))"
proof (induction k arbitrary: s)
  case 0
  then show ?case by simp
next
  case (Suc k)
  from Suc.prems obtain s1 where a: "after_iterations env f N s0 k = Some s1"
    and b: "loop_body f N (iter env k) s1 = Inr s"
    by (auto split: option.splits if_splits sum.splits)
  from Suc.IH [OF a] obtain new where w: "written s1 = written s0 @ new"
    and l: "int (length new) = files_created s1 - files_created s0"
    and n: "\<forall>i<length new. \<exists>j<k. \<exists>topic content.
         outcome (fetch_of (iter env j)) = Inr (Some (topic, content)) \<and>
         ending_of (iter env j) = Written \<and>
         new ! i = (file_name_of f (files_created s0 + int i + 1) (base_name_of topic)
                      (unique_id_of (iter env j)), content)"
    by blast
  from n have n': "\<forall>i<length new. \<exists>j<Suc k. \<exists>topic content.
         outcome (fetch_of (iter env j)) = Inr (Some (topic, content)) \<and>
         ending_of (iter env j) = Written \<and>
         new ! i = (file_name_of f (files_created s0 + int i + 1) (base_name_of topic)
                      (unique_id_of (iter env j)), content)"
    using less_Suc_eq by blast
  show ?case
  proof (cases "ending_of (iter env k)")
    case Skipped
    from loop_body_Skipped [OF this, of f N s1] b
    have "written s = written s1" "files_created s = files_created s1" by auto
    with w l n' show ?thesis by auto
  next
    case WriteFailed
    from loop_body_WriteFailed [OF this, of f N s1] b
    have "written s = written s1" "files_created s = files_created s1" by auto
    with w l n' show ?thesis by auto
  next
    case Raised
    with b show ?thesis using loop_body_Raised [of "iter env k" f N s1] by auto
  next
    case Written
    from loop_body_Written [OF this, of f N s1] b obtain topic content where
      o: "outcome (fetch_of (iter env k)) = Inr (Some (topic, content))"
      and fc: "files_created s = files_created s1 + 1"
      and ws: "written s = written s1 @
        [(file_name_of f (files_created s1 + 1) (base_name_of topic) (unique_id_of (iter env k)), content)]"
      by auto
    let ?e = "(file_name_of f (files_created s1 + 1) (base_name_of topic) (unique_id_of (iter env k)), content)"
    have "written s = written s0 @ (new @ [?e])" using ws w by simp
    moreover have "int (length (new @ [?e])) = files_created s - files_created s0" using l fc by simp
    moreover have "\<forall>i<length (new @ [?e]). \<exists>j<Suc k. \<exists>topic content.
         outcome (fetch_of (iter env j)) = Inr (Some (topic, content)) \<and>
         ending_of (iter env j) = Written \<and>
         (new @ [?e]) ! i = (file_name_of f (files_created s0 + int i + 1) (base_name_of topic)
                      (unique_id_of (iter env j)), content)"
    proof (intro allI impI)
      fix i assume "i < length (new @ [?e])"
      then consider "i < length new" | "i = length new" by fastforce
      then show "\<exists>j<Suc k. \<exists>topic content.
         outcome (fetch_of (iter env j)) = Inr (Some (topic, content)) \<and>
         ending_of (iter env j) = Written \<and>
         (new @ [?e]) ! i = (file_name_of f (files_created s0 + int i + 1) (base_name_of topic)
                      (unique_id_of (iter env j)), content)"
      proof cases
        case 1
        with n' show ?thesis by (simp add: nth_append)
      next
        case 2
        have "files_created s1 + 1 = files_created s0 + int i + 1" using l 2 by simp
        with 2 o Written show ?thesis
          by (intro exI [of _ k] exI [of _ topic] exI [of _ content]) simp
      qed
    qed
    ultimately show ?thesis by blast
  qed
qed

lemma names_distinct:
  assumes "\<forall>i<length new. \<exists>b u. fst (new ! i) = file_name_of f (int i + 1) b u"
  shows "distinct (map fst new)"
proof -
  have "i = j" if "i < length new" "j < length new" "fst (new ! i) = fst (new ! j)" for i j
  proof -
    from assms that(1) obtain b u where 1: "fst (new ! i) = file_name_of f (int i + 1) b u" by blast
    from assms that(2) obtain b' u' where 2: "fst (new ! j) = file_name_of f (int j + 1) b' u'" by blast
    from 1 2 that(3) have "file_name_of f (int i + 1) b u = file_name_of f (int j + 1) b' u'" by simp
    from file_name_of_inj [OF _ _ this] show ?thesis by simp
  qed
  then show ?thesis by (auto simp: distinct_conv_nth)
qed

section \<open>The stubs evaluated\<close>

lemma fetch_good:
  "fetch_of good_iteration =
     \<lparr>outcome = Inr (Some (lit ''Alan Turing'', lit ''A mathematician.'')),
      calls = [SetLang (lit ''en''), Random, Page (lit ''Alan Turing''), Summary (lit ''Alan Turing'') 5],
      printed = []\<rparr>"
  by (simp add: fetch_of_def good_iteration_def reliable_remote_def get_random_wikipedia_article_def
      try_body_def page_and_summary_def randint_def)

lemma fetch_missing:
  "fetch_of missing_iteration =
     \<lparr>outcome = Inr None,
      calls = [SetLang (lit ''en''), Random, Page (lit ''Alan Turing'')],
      printed = [lit ''Page not found for random article. Retrying...'']\<rparr>"
  by (simp add: fetch_of_def missing_iteration_def good_iteration_def missing_remote_def
      reliable_remote_def get_random_wikipedia_article_def
      try_body_def page_and_summary_def randint_def)

lemma fetch_crashing: "outcome (fetch_of crashing_iteration) = Inl IndexError"
  by (simp add: fetch_of_def crashing_iteration_def good_iteration_def ambiguous_empty_def
      reliable_remote_def get_random_wikipedia_article_def
      try_body_def page_and_summary_def randint_def)

lemma ending_good: "ending_of good_iteration = Written"
  by (simp add: ending_of_def fetch_good) (simp add: good_iteration_def)

lemma ending_missing: "ending_of missing_iteration = Skipped"
  by (simp add: ending_of_def fetch_missing)

lemma ending_failing_write: "ending_of failing_write_iteration = WriteFailed"
proof -
  have "fetch_of failing_write_iteration = fetch_of good_iteration"
    by (simp add: fetch_of_def failing_write_iteration_def)
  then show ?thesis
    by (simp add: ending_of_def fetch_good) (simp add: failing_write_iteration_def)
qed

lemma ending_crashing: "ending_of crashing_iteration = Raised"
  by (simp add: ending_of_def fetch_crashing)

section \<open>The whole run\<close>

lemma prologue_ok:
  "output_folder \<in> existing w \<or> makedirs_result env = None \<Longrightarrow>
   prologue env w output_folder N =
     Inr (w\<lparr>existing := insert output_folder (existing w), files_created := 0, attempts := 0,
            stdout := stdout w @ [start_message N]\<rparr>)"
  by (auto simp: prologue_def)

lemma prologue_Inr:
  "prologue env w f N = Inr s0 \<Longrightarrow>
   files_created s0 = 0 \<and> attempts s0 = 0 \<and> written s0 = written w \<and>
   remote_calls s0 = remote_calls w \<and> existing s0 = insert f (existing w) \<and>
   stdout s0 = stdout w @ [start_message N]"
  by (auto simp: prologue_def split: option.splits if_splits)

lemma run_returns:
  assumes "prologue env w f N = Inr s0" "after_iterations env f N s0 k = Some s"
    "\<not> files_created s < N"
  shows "create_wiki_files env w f N =
    Some (Inr (s\<lparr>stdout := stdout s @ [final_message (files_created s) (attempts s)]\<rparr>))"
proof -
  from loop_unfold [OF assms(2)] while_loop_exit [OF assms(3)]
  have "while_loop env f N 0 s0 = Some (Inr s)" by simp
  with assms(1) show ?thesis by (simp add: create_wiki_files_def)
qed

lemma run_result:
  assumes "create_wiki_files env w f N = Some (Inr s')"
  shows "\<exists>s0 k s. prologue env w f N = Inr s0 \<and> after_iterations env f N s0 k = Some s \<and>
     \<not> files_created s < N \<and>
     s' = s\<lparr>stdout := stdout s @ [final_message (files_created s) (attempts s)]\<rparr>"
proof -
  from assms obtain s0 s where p: "prologue env w f N = Inr s0"
    and l: "while_loop env f N 0 s0 = Some (Inr s)"
    and s': "s' = s\<lparr>stdout := stdout s @ [final_message (files_created s) (attempts s)]\<rparr>"
    by (auto simp: create_wiki_files_def split: sum.splits option.splits)
  have "after_iterations env f N s0 0 = Some s0" by simp
  from loop_result [OF l this] obtain k s1 where
    "after_iterations env f N s0 k = Some s1" "\<not> files_created s1 < N" "s = s1"
    by (auto split: if_splits)
  with p s' show ?thesis by blast
qed

lemma run_diverges:
  assumes "prologue env w f N = Inr s0"
    "\<forall>k. \<exists>s. after_iterations env f N s0 k = Some s \<and> files_created s < N"
  shows "create_wiki_files env w f N = None"
proof -
  have "while_loop env f N 0 s0 = None"
  proof (rule ccontr)
    assume "while_loop env f N 0 s0 \<noteq> None"
    then obtain r where r: "while_loop env f N 0 s0 = Some r" by blast
    have "after_iterations env f N s0 0 = Some s0" by simp
    from loop_result [OF r this] obtain k s where
      a: "after_iterations env f N s0 k = Some s"
      and c: "if files_created s < N then (\<exists>e. r = Inl e \<and> loop_body f N (iter env k) s = Inl e)
            else r = Inr s"
      by blast
    from assms(2) a have lt: "files_created s < N" by (metis option.inject)
    with c obtain e where e: "loop_body f N (iter env k) s = Inl e" by auto
    with a lt have "after_iterations env f N s0 (Suc k) = None" by simp
    with assms(2) show False by (metis option.distinct(1))
  qed
  with assms(1) show ?thesis by (simp add: create_wiki_files_def)
qed

lemma filter_none: "(\<forall>x\<in>set xs. \<not> P x) \<Longrightarrow> filter P xs = []"
  by (induction xs) auto

lemma after_stuck:
  assumes "\<forall>k. ending_of (iter env k) = Skipped \<or> ending_of (iter env k) = WriteFailed"
    "files_created s0 < N"
  shows "\<exists>s. after_iterations env f N s0 k = Some s \<and> files_created s < N"
proof (induction k)
  case 0
  with assms(2) show ?case by simp
next
  case (Suc k)
  then obtain s where s: "after_iterations env f N s0 k = Some s" "files_created s < N" by blast
  from assms(1) have "ending_of (iter env k) = Skipped \<or> ending_of (iter env k) = WriteFailed"
    by blast
  then have nr: "ending_of (iter env k) \<noteq> Raised" by auto
  from after_progress [OF s nr] obtain s' where s': "after_iterations env f N s0 (Suc k) = Some s'"
    by blast
  have nw: "ending_of (iter env j) \<noteq> Written" for j
  proof -
    from assms(1) have "ending_of (iter env j) = Skipped \<or> ending_of (iter env j) = WriteFailed"
      by blast
    then show ?thesis by auto
  qed
  have "filter (\<lambda>j. ending_of (iter env j) = Written) [0..<Suc k] = []"
    by (intro filter_none) (simp add: nw)
  with after_count [OF s'] assms(2) have "files_created s' < N" by simp
  with s' show ?case by blast
qed

lemma run_facts:
  assumes p: "prologue env w f N = Inr s0" and a: "after_iterations env f N s0 k = Some s"
  shows "written s = written w @ written_in_run w s"
    and "int (length (written_in_run w s)) = files_created s"
    and "\<forall>i<length (written_in_run w s). \<exists>j<k. \<exists>topic content.
           outcome (fetch_of (iter env j)) = Inr (Some (topic, content)) \<and>
           ending_of (iter env j) = Written \<and>
           written_in_run w s ! i =
             (file_name_of f (int i + 1) (base_name_of topic) (unique_id_of (iter env j)), content)"
    and "attempts s = int k"
    and "0 \<le> N \<Longrightarrow> files_created s \<le> N"
    and "remote_calls w = [] \<Longrightarrow> k = 0 \<Longrightarrow> remote_calls s = []"
proof -
  note q = prologue_Inr [OF p]
  from after_written [OF a] obtain new where w: "written s = written s0 @ new"
    and l: "int (length new) = files_created s - files_created s0"
    and n: "\<forall>i<length new. \<exists>j<k. \<exists>topic content.
         outcome (fetch_of (iter env j)) = Inr (Some (topic, content)) \<and>
         ending_of (iter env j) = Written \<and>
         new ! i = (file_name_of f (files_created s0 + int i + 1) (base_name_of topic)
                      (unique_id_of (iter env j)), content)"
    by blast
  from w q have eq: "written_in_run w s = new" by (simp add: written_in_run_def)
  from w q eq show "written s = written w @ written_in_run w s" by simp
  from l q eq show "int (length (written_in_run w s)) = files_created s" by simp
  from n q eq show "\<forall>i<length (written_in_run w s). \<exists>j<k. \<exists>topic content.
           outcome (fetch_of (iter env j)) = Inr (Some (topic, content)) \<and>
           ending_of (iter env j) = Written \<and>
           written_in_run w s ! i =
             (file_name_of f (int i + 1) (base_name_of topic) (unique_id_of (iter env j)), content)"
    by simp
  from after_attempts [OF a] q show "attempts s = int k" by simp
  show "files_created s \<le> N" if "0 \<le> N"
    using after_le [OF a] q that by simp
  show "remote_calls s = []" if "remote_calls w = []" "k = 0"
    using a that q by simp
qed

lemma run_terminates:
  assumes dir: "f \<in> existing w \<or> makedirs_result env = None"
    and nr: "\<forall>k. ending_of (iter env k) \<noteq> Raised"
    and inf: "\<forall>k. \<exists>k'\<ge>k. ending_of (iter env k') = Written"
    and N: "0 \<le> N"
  shows "\<exists>s0 k s. prologue env w f N = Inr s0 \<and> after_iterations env f N s0 k = Some s \<and>
     files_created s = N \<and>
     create_wiki_files env w f N =
       Some (Inr (s\<lparr>stdout := stdout s @ [final_message (files_created s) (attempts s)]\<rparr>))"
proof -
  from prologue_ok [OF dir] obtain s0 where p: "prologue env w f N = Inr s0" by blast
  from after_terminates [OF nr inf] obtain k s where
    a: "after_iterations env f N s0 k = Some s" and e: "\<not> files_created s < N" by blast
  from run_facts(5) [OF p a N] e have "files_created s = N" by simp
  with p a run_returns [OF p a e] show ?thesis by blast
qed

section \<open>The fetch\<close>

lemma fetch_raises_iff:
  "outcome (get_random_wikipedia_article r n) = Inl e \<longleftrightarrow>
     e = IndexError \<and> (\<exists>tr. try_body r n = (Inl (DisambiguationError []), tr))"
  by (auto simp: get_random_wikipedia_article_def split: prod.splits sum.splits exn.splits list.splits)

text \<open>
  Claim C1 says that \<open>get_random_wikipedia_article\<close> returns a pair or \<open>None\<close>
  whatever the remote lookups do, also on the disambiguation path and whatever the list of
  candidates contains. When the page lookup reports an ambiguity with an empty list of
  candidates, \<open>e.options[0]\<close> of line 24 raises \<open>IndexError\<close>, which leaves the
  function and then \<open>create_wiki_files\<close>. By \<open>fetch_raises_iff\<close> this is the only
  way an exception leaves the function.
\<close>

theorem fetch_raises_on_empty_options:
  "outcome (get_random_wikipedia_article ambiguous_empty 5) = Inl IndexError
   \<and> create_wiki_files (env_of (\<lambda>k. crashing_iteration)) empty_world (lit ''data'') 1 = Some (Inl IndexError)"
proof -
  have a: "outcome (get_random_wikipedia_article ambiguous_empty 5) = Inl IndexError"
    by (simp add: ambiguous_empty_def
      reliable_remote_def get_random_wikipedia_article_def try_body_def page_and_summary_def)
  have "loop_body f N crashing_iteration s = Inl IndexError" for f N s
    by (simp add: loop_body_def fetch_crashing)
  then have "while_loop (env_of (\<lambda>k. crashing_iteration)) (lit ''data'') 1 0 s = Some (Inl IndexError)"
    if "files_created s = 0" for s
    using that by (subst while_loop.simps) (simp add: env_of_def)
  then have "create_wiki_files (env_of (\<lambda>k. crashing_iteration)) empty_world (lit ''data'') 1 = Some (Inl IndexError)"
    by (simp add: create_wiki_files_def prologue_def empty_world_def env_of_def)
  with a show ?thesis by simp
qed

text \<open>
  Claim C5: when a lookup of the \<open>try\<close> block reports an ambiguity with candidates
  \<open>c # cs\<close>, the function looks up the page of the first candidate \<open>c\<close> and, if
  that succeeds, its summary, once each and for no other candidate; it returns the pair
  of that retry, and \<open>None\<close> as soon as one of the two lookups raises anything.
\<close>

theorem first_candidate_retried_once:
  assumes "try_body r n = (Inl (DisambiguationError (c # cs)), tr)"
  shows "outcome (get_random_wikipedia_article r n) =
           (case page_lookup r c of
              Inl e \<Rightarrow> Inr None
            | Inr p \<Rightarrow> (case summary_lookup r c n of
                         Inl e \<Rightarrow> Inr None
                       | Inr summary_text \<Rightarrow> Inr (Some (title p, summary_text))))
       \<and> calls (get_random_wikipedia_article r n) =
           tr @ (case page_lookup r c of Inl e \<Rightarrow> [Page c] | Inr p \<Rightarrow> [Page c, Summary c n])
       \<and> printed (get_random_wikipedia_article r n) = [disambiguation_message c]"
  using assms
  by (auto simp: get_random_wikipedia_article_def page_and_summary_def split: prod.splits sum.splits exn.splits list.splits)

theorem first_candidate_retried_once_witness:
  "try_body ambiguous_remote 5 =
     (Inl (DisambiguationError [lit ''Mercury (planet)'', lit ''Mercury (element)'']),
      [SetLang (lit ''en''), Random, Page (lit ''Mercury'')])
   \<and> outcome (get_random_wikipedia_article ambiguous_remote 5) =
       Inr (Some (lit ''Mercury (planet)'', lit ''A mathematician.''))
   \<and> calls (get_random_wikipedia_article ambiguous_remote 5) =
       [SetLang (lit ''en''), Random, Page (lit ''Mercury''),
        Page (lit ''Mercury (planet)''), Summary (lit ''Mercury (planet)'') 5]"
proof -
  have t: "try_body ambiguous_remote 5 =
     (Inl (DisambiguationError [lit ''Mercury (planet)'', lit ''Mercury (element)'']),
      [SetLang (lit ''en''), Random, Page (lit ''Mercury'')])"
    by (simp add: try_body_def page_and_summary_def ambiguous_remote_def reliable_remote_def)
  have p: "page_lookup ambiguous_remote (lit ''Mercury (planet)'') = Inr \<lparr>title = lit ''Mercury (planet)''\<rparr>"
    by (simp add: ambiguous_remote_def reliable_remote_def lit_def)
  have s: "summary_lookup ambiguous_remote (lit ''Mercury (planet)'') 5 = Inr (lit ''A mathematician.'')"
    by (simp add: ambiguous_remote_def reliable_remote_def)
  from first_candidate_retried_once [OF t] t show ?thesis by (simp add: p s)
qed

text \<open>
  Claim C8: when nothing raises, the title returned is the \<open>title\<close> of the page
  object, while the summary is the one requested for the sampled title \<open>t\<close>; the two
  differ whenever the page lookup redirects, as in the witness.
\<close>

theorem title_from_page_summary_by_sampled_title:
  assumes "set_lang r (lit ''en'') = Inr ()" "random_title r = Inr t"
    "page_lookup r t = Inr p" "summary_lookup r t n = Inr summary_text"
  shows "outcome (get_random_wikipedia_article r n) = Inr (Some (title p, summary_text))
     \<and> calls (get_random_wikipedia_article r n) = [SetLang (lit ''en''), Random, Page t, Summary t n]"
  using assms
  by (simp add: get_random_wikipedia_article_def try_body_def page_and_summary_def)

theorem title_from_page_summary_by_sampled_title_witness:
  "outcome (get_random_wikipedia_article redirecting_remote 5) =
      Inr (Some (lit ''United Kingdom'', lit ''A mathematician.''))
   \<and> calls (get_random_wikipedia_article redirecting_remote 5) =
      [SetLang (lit ''en''), Random, Page (lit ''UK''), Summary (lit ''UK'') 5]
   \<and> lit ''United Kingdom'' \<noteq> lit ''UK''"
proof -
  have "set_lang redirecting_remote (lit ''en'') = Inr ()"
    "random_title redirecting_remote = Inr (lit ''UK'')"
    "page_lookup redirecting_remote (lit ''UK'') = Inr \<lparr>title = lit ''United Kingdom''\<rparr>"
    "summary_lookup redirecting_remote (lit ''UK'') 5 = Inr (lit ''A mathematician.'')"
    by (simp_all add: redirecting_remote_def reliable_remote_def)
  from title_from_page_summary_by_sampled_title [OF this] show ?thesis by (simp add: lit_def)
qed

section \<open>The driver\<close>

lemma str_int_0: "str_int 0 = lit ''0''"
  by code_simp

lemma str_int_minus_3: "str_int (- 3) = lit ''-3''"
  by code_simp

text \<open>
  Claim C9: when \<open>num_files\<close> is zero or negative the loop body never runs. Provided
  the directory exists or \<open>os.makedirs\<close> completes, the function returns in the world
  it started in, changed only in that the directory exists, the two counters are 0 and
  the first line of line 43 and the final report of line 76, with 0 files and 0 attempts,
  have been printed: no remote operation has been invoked and no file has been written.
\<close>

theorem nonpositive_target:
  assumes "N \<le> 0" "output_folder \<in> existing w \<or> makedirs_result env = None"
  shows "create_wiki_files env w output_folder N =
    Some (Inr (w\<lparr>existing := insert output_folder (existing w), files_created := 0, attempts := 0,
                  stdout := stdout w @
                    [lit ''Starting to generate '' @ str_int N @
                       lit '' files with random Wikipedia articles...'' @ [10],
                     [10] @ lit ''Generation completed. Created '' @ str_int 0 @
                       lit '' files from random Wikipedia articles in '' @ str_int 0 @
                       lit '' attempts.'']\<rparr>))"
proof -
  let ?s0 = "w\<lparr>existing := insert output_folder (existing w), files_created := 0, attempts := 0,
            stdout := stdout w @ [start_message N]\<rparr>"
  have p: "prologue env w output_folder N = Inr ?s0" by (rule prologue_ok [OF assms(2)])
  have a: "after_iterations env output_folder N ?s0 0 = Some ?s0" by simp
  have e: "\<not> files_created ?s0 < N" using assms(1) by simp
  from run_returns [OF p a e] show ?thesis by (simp add: start_message_def final_message_def)
qed

theorem nonpositive_target_witness:
  "create_wiki_files (env_of (\<lambda>k. crashing_iteration)) empty_world (lit ''data'') 0 =
     Some (Inr \<lparr>files_created = 0, attempts = 0, existing = {lit ''data''}, written = [],
                stdout =
                  [lit ''Starting to generate 0 files with random Wikipedia articles...'' @ [10],
                   [10] @ lit ''Generation completed. Created 0 files from random Wikipedia articles in 0 attempts.''],
                remote_calls = []\<rparr>)
   \<and> create_wiki_files (env_of (\<lambda>k. good_iteration)) empty_world (lit ''data'') (- 3) =
     Some (Inr \<lparr>files_created = 0, attempts = 0, existing = {lit ''data''}, written = [],
                stdout =
                  [lit ''Starting to generate -3 files with random Wikipedia articles...'' @ [10],
                   [10] @ lit ''Generation completed. Created 0 files from random Wikipedia articles in 0 attempts.''],
                remote_calls = []\<rparr>)"
proof -
  have m: "makedirs_result (env_of its) = None" for its by (simp add: env_of_def)
  have n0: "(0::int) \<le> 0" and n3: "(- 3::int) \<le> 0" by simp_all
  have d: "lit ''data'' \<in> existing empty_world \<or> makedirs_result (env_of its) = None" for its
    using m by simp
  from nonpositive_target [OF n0 d, of "\<lambda>k. crashing_iteration"]
    nonpositive_target [OF n3 d, of "\<lambda>k. good_iteration"]
  show ?thesis
    by (simp add: str_int_0 str_int_minus_3) (simp add: empty_world_def lit_def)
qed


text \<open>
  Claim C2: an iteration that completes has incremented \<open>attempts\<close> by exactly one; it
  has incremented \<open>files_created\<close> (by one) exactly when it has written a file, and
  has otherwise left both the counter and the files as they were (line 57 increments the
  counter ahead of the write and line 74 takes the increment back when the write raises
  an \<open>IOError\<close>, so between two iterations the counter never runs ahead of the files). When the fetch returns
  \<open>None\<close> the iteration changes nothing but \<open>attempts\<close> and what the fetch itself
  printed and invoked, and the loop goes on with the next iteration.
\<close>

theorem iteration_counters:
  "(\<forall>s'. loop_body f N (iter env k) s = Inr s' \<longrightarrow>
       attempts s' = attempts s + 1 \<and>
       (if ending_of (iter env k) = Written
        then files_created s' = files_created s + 1 \<and> (\<exists>entry. written s' = written s @ [entry])
        else files_created s' = files_created s \<and> written s' = written s))
   \<and> (outcome (fetch_of (iter env k)) = Inr None \<longrightarrow>
        loop_body f N (iter env k) s =
          Inr (s\<lparr>attempts := attempts s + 1,
                 stdout := stdout s @ printed (fetch_of (iter env k)),
                 remote_calls := remote_calls s @ calls (fetch_of (iter env k))\<rparr>)
        \<and> (files_created s < N \<longrightarrow>
             while_loop env f N k s =
             while_loop env f N (Suc k)
               (s\<lparr>attempts := attempts s + 1,
                  stdout := stdout s @ printed (fetch_of (iter env k)),
                  remote_calls := remote_calls s @ calls (fetch_of (iter env k))\<rparr>)))"
proof -
  let ?it = "iter env k"
  have 1: "attempts s' = attempts s + 1 \<and>
       (if ending_of ?it = Written
        then files_created s' = files_created s + 1 \<and> (\<exists>entry. written s' = written s @ [entry])
        else files_created s' = files_created s \<and> written s' = written s)"
    if b: "loop_body f N ?it s = Inr s'" for s'
  proof (cases "ending_of ?it")
    case Skipped
    from loop_body_Skipped [OF this, of f N s] b show ?thesis using Skipped by auto
  next
    case Written
    from loop_body_Written [OF this, of f N s] b show ?thesis using Written by auto
  next
    case WriteFailed
    from loop_body_WriteFailed [OF this, of f N s] b show ?thesis using WriteFailed by auto
  next
    case Raised
    with b show ?thesis using loop_body_Raised [of ?it f N s] by auto
  qed
  have 2: "loop_body f N ?it s =
          Inr (s\<lparr>attempts := attempts s + 1,
                 stdout := stdout s @ printed (fetch_of ?it),
                 remote_calls := remote_calls s @ calls (fetch_of ?it)\<rparr>)"
    if "outcome (fetch_of ?it) = Inr None"
  proof -
    from that have "ending_of ?it = Skipped" by (simp add: ending_of_def)
    then show ?thesis by (rule loop_body_Skipped)
  qed
  have 3: "while_loop env f N k s =
             while_loop env f N (Suc k)
               (s\<lparr>attempts := attempts s + 1,
                  stdout := stdout s @ printed (fetch_of ?it),
                  remote_calls := remote_calls s @ calls (fetch_of ?it)\<rparr>)"
    if "outcome (fetch_of ?it) = Inr None" "files_created s < N"
    using while_loop_step [OF that(2) 2 [OF that(1)]] .
  show ?thesis
  proof (intro conjI allI impI)
    fix s' assume "loop_body f N ?it s = Inr s'"
    from 1 [OF this] show "attempts s' = attempts s + 1" by blast
  next
    fix s' assume "loop_body f N ?it s = Inr s'"
    from 1 [OF this] show "if ending_of ?it = Written
        then files_created s' = files_created s + 1 \<and> (\<exists>entry. written s' = written s @ [entry])
        else files_created s' = files_created s \<and> written s' = written s" by blast
  next
    assume "outcome (fetch_of ?it) = Inr None"
    then show "loop_body f N ?it s =
          Inr (s\<lparr>attempts := attempts s + 1,
                 stdout := stdout s @ printed (fetch_of ?it),
                 remote_calls := remote_calls s @ calls (fetch_of ?it)\<rparr>)" by (rule 2)
  next
    assume "outcome (fetch_of ?it) = Inr None" "files_created s < N"
    then show "while_loop env f N k s =
             while_loop env f N (Suc k)
               (s\<lparr>attempts := attempts s + 1,
                  stdout := stdout s @ printed (fetch_of ?it),
                  remote_calls := remote_calls s @ calls (fetch_of ?it)\<rparr>)" by (rule 3)
  qed
qed




theorem iteration_counters_witness:
  "loop_body (lit ''data'') 2 missing_iteration empty_world =
     Inr (empty_world\<lparr>attempts := 1,
            stdout := [lit ''Page not found for random article. Retrying...''],
            remote_calls := [SetLang (lit ''en''), Random, Page (lit ''Alan Turing'')]\<rparr>)
   \<and> (\<exists>s'. loop_body (lit ''data'') 2 good_iteration empty_world = Inr s' \<and>
        attempts s' = 1 \<and> files_created s' = 1 \<and> (\<exists>entry. written s' = [entry]))"
proof -
  let ?env = "env_of (\<lambda>k. if k = 0 then missing_iteration else good_iteration)"
  have i0: "iter ?env 0 = missing_iteration" and i1: "iter ?env 1 = good_iteration"
    by (simp_all add: env_of_def)
  have o: "outcome (fetch_of (iter ?env 0)) = Inr None"
    unfolding i0 by (simp add: fetch_missing)
  from iteration_counters [of "lit ''data''" 2 ?env 0 empty_world, THEN conjunct2, THEN mp, OF o, THEN conjunct1]
  have a: "loop_body (lit ''data'') 2 missing_iteration empty_world =
     Inr (empty_world\<lparr>attempts := 1,
            stdout := [lit ''Page not found for random article. Retrying...''],
            remote_calls := [SetLang (lit ''en''), Random, Page (lit ''Alan Turing'')]\<rparr>)"
    unfolding i0 by (simp add: fetch_missing empty_world_def)
  from loop_body_Written [OF ending_good, of "lit ''data''" 2 empty_world]
  obtain s' where s': "loop_body (lit ''data'') 2 good_iteration empty_world = Inr s'" by blast
  from iteration_counters [of "lit ''data''" 2 ?env 1 empty_world, THEN conjunct1, THEN spec, THEN mp, of s'] s'
  have "attempts s' = 1 \<and> files_created s' = 1 \<and> (\<exists>entry. written s' = [entry])"
    unfolding i1 by (simp add: ending_good empty_world_def)
  with a s' show ?thesis by blast
qed

lemma unique_id_of_population:
  "set (unique_id_of it) \<subseteq> set (lit ''0123456789'')"
proof -
  have "lit ''0123456789'' ! (r mod length (lit ''0123456789'')) \<in> set (lit ''0123456789'')" for r
    by (rule nth_mem) (simp add: lit_def)
  then show ?thesis by (auto simp: unique_id_of_def choices_def)
qed

lemma format_03d_1: "format_03d 1 = lit ''001''"
  by code_simp

lemma base_name_example:
  "base_name_of (lit ''Foo (Bar)/Baz Very Long Title Exceeding Thirty Chars'') =
     lit ''Foo_Bar_Baz_Very_Long_Title_Ex''"
  by (simp add: base_name_of_def replace_char_def lit_def)

text \<open>
  Claim C3: when the iteration numbered \<open>k\<close> of a run fetches the article
  \<open>(topic, content)\<close> and its write completes, the file it writes is named, inside the
  output folder, by the success index in the format \<open>03d\<close>, an underscore, the base
  name, an underscore, the suffix and \<open>.txt\<close>. The base name is the title with every
  space replaced by an underscore, every parenthesis deleted and every slash replaced by
  an underscore, in this order, cut to 30 characters; the suffix is four decimal digits;
  the index is one more than the number of files the run has written before, it is
  written in decimal digits, at least three of them and exactly three below 1000.
\<close>

theorem file_name_shape:
  assumes "prologue env w output_folder N = Inr s0"
    and "after_iterations env output_folder N s0 k = Some s"
    and "files_created s < N"
    and "outcome (fetch_of (iter env k)) = Inr (Some (topic, content))"
    and "write_result (iter env k) = None"
  shows "\<exists>s'. after_iterations env output_folder N s0 (Suc k) = Some s' \<and>
     written_in_run w s' = written_in_run w s @
       [(os_path_join output_folder
           (format_03d (int (length (written_in_run w s)) + 1) @ [95] @
            take 30 (replace_char 47 [95] (replace_char 41 [] (replace_char 40 []
              (replace_char 32 [95] topic)))) @ [95] @
            unique_id_of (iter env k) @ lit ''.txt''), content)]
     \<and> length (unique_id_of (iter env k)) = 4
     \<and> set (unique_id_of (iter env k)) \<subseteq> set (lit ''0123456789'')
     \<and> decimal_value (format_03d (int (length (written_in_run w s)) + 1)) = length (written_in_run w s) + 1
     \<and> set (format_03d (int (length (written_in_run w s)) + 1)) \<subseteq> set (lit ''0123456789'')
     \<and> 3 \<le> length (format_03d (int (length (written_in_run w s)) + 1))
     \<and> (length (written_in_run w s) + 1 < 1000 \<longrightarrow>
          length (format_03d (int (length (written_in_run w s)) + 1)) = 3)"
proof -
  let ?it = "iter env k"
  let ?n = "length (written_in_run w s)"
  from assms(4,5) have e: "ending_of ?it = Written" by (simp add: ending_of_def)
  from loop_body_Written [OF e, of output_folder N s] assms(4) obtain s' where
    b: "loop_body output_folder N ?it s = Inr s'"
    and ws: "written s' = written s @
        [(file_name_of output_folder (files_created s + 1) (base_name_of topic) (unique_id_of ?it), content)]"
    by auto
  from assms(2,3) b have a': "after_iterations env output_folder N s0 (Suc k) = Some s'" by simp
  note f = run_facts(1,2) [OF assms(1,2)]
  from f(2) have fc: "files_created s + 1 = int ?n + 1" by simp
  from ws f(1) have "written s' = written w @ (written_in_run w s @
     [(file_name_of output_folder (int ?n + 1) (base_name_of topic) (unique_id_of ?it), content)])"
    unfolding fc by (metis append.assoc)
  then have "written_in_run w s' = written_in_run w s @
     [(file_name_of output_folder (int ?n + 1) (base_name_of topic) (unique_id_of ?it), content)]"
    by (simp add: written_in_run_def)
  then have 1: "written_in_run w s' = written_in_run w s @
       [(os_path_join output_folder
           (format_03d (int ?n + 1) @ [95] @
            take 30 (replace_char 47 [95] (replace_char 41 [] (replace_char 40 []
              (replace_char 32 [95] topic)))) @ [95] @
            unique_id_of ?it @ lit ''.txt''), content)]"
    by (simp add: file_name_of_def base_name_of_def)
  have d: "set (lit ''0123456789'') = {48..57}"
  proof
    show "set (lit ''0123456789'') \<subseteq> {48..57}" by (simp add: lit_def)
    show "{48..57} \<subseteq> set (lit ''0123456789'')"
    proof
      fix x :: nat assume "x \<in> {48..57}"
      then have "x = 48 \<or> x = 49 \<or> x = 50 \<or> x = 51 \<or> x = 52 \<or> x = 53 \<or> x = 54 \<or> x = 55
        \<or> x = 56 \<or> x = 57" by (simp only: atLeastAtMost_iff) arith
      then show "x \<in> set (lit ''0123456789'')" by (auto simp: lit_def)
    qed
  qed
  have 2: "decimal_value (format_03d (int ?n + 1)) = ?n + 1"
    using decimal_value_format_03d [of "int ?n + 1"] by simp
  have 3: "set (format_03d (int ?n + 1)) \<subseteq> set (lit ''0123456789'')"
    unfolding d by (rule format_03d_digits) simp
  have 4: "3 \<le> length (format_03d (int ?n + 1))" by (rule format_03d_length) simp
  have 5: "length (format_03d (int ?n + 1)) = 3" if "?n + 1 < 1000"
    using that by (intro format_03d_length3) simp_all
  from a' 1 2 3 4 5 unique_id_of_digits [of ?it] unique_id_of_population [of ?it]
  show ?thesis by blast
qed


lemma fetch_long_title:
  "outcome (fetch_of long_title_iteration) =
     Inr (Some (lit ''Foo (Bar)/Baz Very Long Title Exceeding Thirty Chars'', lit ''A mathematician.''))"
  by (simp add: fetch_of_def long_title_iteration_def long_title_remote_def good_iteration_def
      reliable_remote_def get_random_wikipedia_article_def try_body_def page_and_summary_def)

theorem file_name_shape_witness:
  "\<exists>s0 s'. prologue (env_of (\<lambda>k. long_title_iteration)) empty_world (lit ''data'') 1 = Inr s0 \<and>
     after_iterations (env_of (\<lambda>k. long_title_iteration)) (lit ''data'') 1 s0 1 = Some s' \<and>
     written_in_run empty_world s' =
       [(lit ''data/001_Foo_Bar_Baz_Very_Long_Title_Ex_0123.txt'', lit ''A mathematician.'')]"
proof -
  let ?env = "env_of (\<lambda>k. long_title_iteration)"
  let ?s0 = "empty_world\<lparr>existing := insert (lit ''data'') (existing empty_world),
     files_created := 0, attempts := 0, stdout := stdout empty_world @ [start_message 1]\<rparr>"
  have p: "prologue ?env empty_world (lit ''data'') 1 = Inr ?s0"
    by (rule prologue_ok) (simp add: env_of_def)
  have a: "after_iterations ?env (lit ''data'') 1 ?s0 0 = Some ?s0" by simp
  have g: "files_created ?s0 < 1" by simp
  have o: "outcome (fetch_of (iter ?env 0)) =
     Inr (Some (lit ''Foo (Bar)/Baz Very Long Title Exceeding Thirty Chars'', lit ''A mathematician.''))"
    by (simp add: env_of_def fetch_long_title)
  have wr: "write_result (iter ?env 0) = None"
    by (simp add: env_of_def long_title_iteration_def good_iteration_def)
  have e: "written_in_run empty_world ?s0 = []" by (simp add: written_in_run_def)
  have u: "unique_id_of (iter ?env 0) = lit ''0123''"
    by (simp add: env_of_def unique_id_of_def choices_def long_title_iteration_def
        good_iteration_def lit_def upt_rec)
  from file_name_shape [OF p a g o wr] obtain s' where
    a': "after_iterations ?env (lit ''data'') 1 ?s0 (Suc 0) = Some s'"
    and w': "written_in_run empty_world s' = written_in_run empty_world ?s0 @
       [(os_path_join (lit ''data'')
           (format_03d (int (length (written_in_run empty_world ?s0)) + 1) @ [95] @
            take 30 (replace_char 47 [95] (replace_char 41 [] (replace_char 40 []
              (replace_char 32 [95] (lit ''Foo (Bar)/Baz Very Long Title Exceeding Thirty Chars''))))) @ [95] @
            unique_id_of (iter ?env 0) @ lit ''.txt''), lit ''A mathematician.'')]"
    by blast
  have "written_in_run empty_world s' =
       [(lit ''data/001_Foo_Bar_Baz_Very_Long_Title_Ex_0123.txt'', lit ''A mathematician.'')]"
    unfolding w' e u by (simp add: format_03d_1) (simp add: os_path_join_def replace_char_def lit_def)
  with p a' show ?thesis by auto
qed

lemma digits_set: "set (lit ''0123456789'') = {48..57}"
proof
  show "set (lit ''0123456789'') \<subseteq> {48..57}" by (simp add: lit_def)
  show "{48..57} \<subseteq> set (lit ''0123456789'')"
  proof
    fix x :: nat assume "x \<in> {48..57}"
    then have "x = 48 \<or> x = 49 \<or> x = 50 \<or> x = 51 \<or> x = 52 \<or> x = 53 \<or> x = 54 \<or> x = 55
      \<or> x = 56 \<or> x = 57" by (simp only: atLeastAtMost_iff) arith
    then show "x \<in> set (lit ''0123456789'')" by (auto simp: lit_def)
  qed
qed

lemma format_03d_2: "format_03d 2 = lit ''002''"
  by code_simp

lemma format_03d_3: "format_03d 3 = lit ''003''"
  by code_simp

lemma unique_id_stub:
  "rand_digits it = (\<lambda>j. j) \<Longrightarrow> unique_id_of it = lit ''0123''"
  by (simp add: unique_id_of_def choices_def lit_def upt_rec)

lemma stub_name_1:
  "os_path_join (lit ''data'')
     (lit ''001'' @ [95] @ base_name_of (lit ''Alan Turing'') @ [95] @ lit ''0123'' @ lit ''.txt'') =
   lit ''data/001_Alan_Turing_0123.txt''"
  by (simp add: os_path_join_def base_name_of_def replace_char_def lit_def)

lemma stub_name_2:
  "os_path_join (lit ''data'')
     (lit ''002'' @ [95] @ base_name_of (lit ''Alan Turing'') @ [95] @ lit ''0123'' @ lit ''.txt'') =
   lit ''data/002_Alan_Turing_0123.txt''"
  by (simp add: os_path_join_def base_name_of_def replace_char_def lit_def)

lemma stub_name_3:
  "os_path_join (lit ''data'')
     (lit ''003'' @ [95] @ base_name_of (lit ''Alan Turing'') @ [95] @ lit ''0123'' @ lit ''.txt'') =
   lit ''data/003_Alan_Turing_0123.txt''"
  by (simp add: os_path_join_def base_name_of_def replace_char_def lit_def)

lemma run_names:
  assumes p: "prologue env w f N = Inr s0" and a: "after_iterations env f N s0 k = Some s"
  shows "distinct (map fst (written_in_run w s))"
    and "\<forall>i<length (written_in_run w s). \<exists>topic u.
           fst (written_in_run w s ! i) = file_name_of f (int i + 1) (base_name_of topic) u
           \<and> decimal_value (format_03d (int i + 1)) = i + 1"
proof -
  have n: "\<exists>topic u. fst (written_in_run w s ! i) = file_name_of f (int i + 1) (base_name_of topic) u"
    if "i < length (written_in_run w s)" for i
  proof -
    from run_facts(3) [OF p a] that obtain j topic content where
      "written_in_run w s ! i =
             (file_name_of f (int i + 1) (base_name_of topic) (unique_id_of (iter env j)), content)"
      by blast
    then have "fst (written_in_run w s ! i) =
       file_name_of f (int i + 1) (base_name_of topic) (unique_id_of (iter env j))" by simp
    then show ?thesis by blast
  qed
  then have "\<forall>i<length (written_in_run w s). \<exists>b u.
     fst (written_in_run w s ! i) = file_name_of f (int i + 1) b u" by blast
  then show "distinct (map fst (written_in_run w s))" by (rule names_distinct)
  have "decimal_value (format_03d (int i + 1)) = i + 1" for i
    using decimal_value_format_03d [of "int i + 1"] by simp
  with n show "\<forall>i<length (written_in_run w s). \<exists>topic u.
           fst (written_in_run w s ! i) = file_name_of f (int i + 1) (base_name_of topic) u
           \<and> decimal_value (format_03d (int i + 1)) = i + 1" by blast
qed

lemma count_from:
  "length (filter (\<lambda>j. K \<le> j) [0..<k]) = k - K"
proof (induction k)
  case 0
  then show ?case by simp
next
  case (Suc k)
  then show ?case by (auto simp: Suc_diff_le)
qed

text \<open>
  Claim C4: for a positive target \<open>N\<close>, when the fetch returns \<open>None\<close> in the first
  \<open>K\<close> iterations and an article in all later ones, and every write completes, the
  run returns having written exactly \<open>N\<close> files under pairwise different names, in
  \<open>N + K\<close> attempts. The file numbered \<open>i\<close> holds the article of one of the
  iterations and is named by the index \<open>i + 1\<close>, written in decimal digits only, at
  least three of them and exactly three below 1000, followed by the base name and the
  suffix of that iteration. With \<open>K = 0\<close> this is the source that always succeeds.
\<close>

theorem generate_counts:
  assumes "0 < N"
    and "output_folder \<in> existing w \<or> makedirs_result env = None"
    and "\<forall>k<K. ending_of (iter env k) = Skipped"
    and "\<forall>k\<ge>K. ending_of (iter env k) = Written"
  shows "\<exists>s. create_wiki_files env w output_folder N = Some (Inr s) \<and>
     files_created s = N \<and> attempts s = N + int K \<and>
     written s = written w @ written_in_run w s \<and>
     length (written_in_run w s) = nat N \<and>
     distinct (map fst (written_in_run w s)) \<and>
     (\<forall>i<nat N.
        (\<exists>j topic content.
           outcome (fetch_of (iter env j)) = Inr (Some (topic, content)) \<and>
           written_in_run w s ! i =
             (os_path_join output_folder
                (format_03d (int i + 1) @ [95] @ base_name_of topic @ [95] @
                 unique_id_of (iter env j) @ lit ''.txt''), content))
        \<and> decimal_value (format_03d (int i + 1)) = i + 1
        \<and> set (format_03d (int i + 1)) \<subseteq> set (lit ''0123456789'')
        \<and> 3 \<le> length (format_03d (int i + 1))
        \<and> (i + 1 < 1000 \<longrightarrow> length (format_03d (int i + 1)) = 3))"
proof -
  have nr: "\<forall>k. ending_of (iter env k) \<noteq> Raised"
  proof
    fix k show "ending_of (iter env k) \<noteq> Raised"
      using assms(3,4) by (cases "k < K") auto
  qed
  have inf: "\<forall>k. \<exists>k'\<ge>k. ending_of (iter env k') = Written"
  proof
    fix k
    have "k \<le> max k K" "K \<le> max k K" by simp_all
    with assms(4) show "\<exists>k'\<ge>k. ending_of (iter env k') = Written" by blast
  qed
  from assms(1) have N0: "0 \<le> N" by simp
  from run_terminates [OF assms(2) nr inf N0] obtain s0 k s where
    p: "prologue env w output_folder N = Inr s0"
    and a: "after_iterations env output_folder N s0 k = Some s"
    and fc: "files_created s = N"
    and c: "create_wiki_files env w output_folder N =
       Some (Inr (s\<lparr>stdout := stdout s @ [final_message (files_created s) (attempts s)]\<rparr>))"
    by blast
  let ?s = "s\<lparr>stdout := stdout s @ [final_message (files_created s) (attempts s)]\<rparr>"
  note f = run_facts [OF p a]
  have w: "(\<lambda>j. ending_of (iter env j) = Written) = (\<lambda>j. K \<le> j)"
  proof
    fix j show "(ending_of (iter env j) = Written) = (K \<le> j)"
      using assms(3,4) by (cases "j < K") auto
  qed
  from after_count [OF a] prologue_Inr [OF p]
  have "files_created s = int (k - K)" by (simp add: w count_from)
  with fc assms(1) have k: "int k = N + int K" by linarith
  have e: "written_in_run w ?s = written_in_run w s" by (simp add: written_in_run_def)
  from f(2) fc have l: "length (written_in_run w s) = nat N" by simp
  have names: "(\<exists>j topic content.
           outcome (fetch_of (iter env j)) = Inr (Some (topic, content)) \<and>
           written_in_run w ?s ! i =
             (os_path_join output_folder
                (format_03d (int i + 1) @ [95] @ base_name_of topic @ [95] @
                 unique_id_of (iter env j) @ lit ''.txt''), content))
        \<and> decimal_value (format_03d (int i + 1)) = i + 1
        \<and> set (format_03d (int i + 1)) \<subseteq> set (lit ''0123456789'')
        \<and> 3 \<le> length (format_03d (int i + 1))
        \<and> (i + 1 < 1000 \<longrightarrow> length (format_03d (int i + 1)) = 3)"
    if "i < nat N" for i
  proof -
    from that l have "i < length (written_in_run w s)" by simp
    with f(3) obtain j topic content where
      "outcome (fetch_of (iter env j)) = Inr (Some (topic, content))"
      "written_in_run w s ! i =
             (file_name_of output_folder (int i + 1) (base_name_of topic)
                (unique_id_of (iter env j)), content)"
      by blast
    then have 1: "\<exists>j topic content.
           outcome (fetch_of (iter env j)) = Inr (Some (topic, content)) \<and>
           written_in_run w ?s ! i =
             (os_path_join output_folder
                (format_03d (int i + 1) @ [95] @ base_name_of topic @ [95] @
                 unique_id_of (iter env j) @ lit ''.txt''), content)"
      unfolding e file_name_of_def by blast
    have 2: "decimal_value (format_03d (int i + 1)) = i + 1"
      using decimal_value_format_03d [of "int i + 1"] by simp
    have 3: "set (format_03d (int i + 1)) \<subseteq> set (lit ''0123456789'')"
      unfolding digits_set by (rule format_03d_digits) simp
    have 4: "3 \<le> length (format_03d (int i + 1))" by (rule format_03d_length) simp
    have 5: "length (format_03d (int i + 1)) = 3" if "i + 1 < 1000"
      using that by (intro format_03d_length3) simp_all
    from 1 2 3 4 5 show ?thesis by blast
  qed
  have "files_created ?s = N" using fc by simp
  moreover have "attempts ?s = N + int K" using f(4) k by simp
  moreover have "written ?s = written w @ written_in_run w ?s" using f(1) e by simp
  moreover have "length (written_in_run w ?s) = nat N" using l e by simp
  moreover have "distinct (map fst (written_in_run w ?s))"
    using run_names(1) [OF p a] e by simp
  ultimately show ?thesis using c names by blast
qed

theorem generate_counts_witness:
  "(\<exists>s. create_wiki_files (env_of (\<lambda>k. good_iteration)) empty_world (lit ''data'') 3 = Some (Inr s) \<and>
      files_created s = 3 \<and> attempts s = 3 \<and>
      written s =
        [(lit ''data/001_Alan_Turing_0123.txt'', lit ''A mathematician.''),
         (lit ''data/002_Alan_Turing_0123.txt'', lit ''A mathematician.''),
         (lit ''data/003_Alan_Turing_0123.txt'', lit ''A mathematician.'')])
   \<and> (\<exists>s. create_wiki_files (env_of (\<lambda>k. if k < 2 then missing_iteration else good_iteration))
            empty_world (lit ''data'') 3 = Some (Inr s) \<and>
      files_created s = 3 \<and> attempts s = 5 \<and>
      written s =
        [(lit ''data/001_Alan_Turing_0123.txt'', lit ''A mathematician.''),
         (lit ''data/002_Alan_Turing_0123.txt'', lit ''A mathematician.''),
         (lit ''data/003_Alan_Turing_0123.txt'', lit ''A mathematician.'')])"
proof -
  let ?e1 = "env_of (\<lambda>k. good_iteration)"
  let ?e2 = "env_of (\<lambda>k. if k < 2 then missing_iteration else good_iteration)"
  let ?files = "[(lit ''data/001_Alan_Turing_0123.txt'', lit ''A mathematician.''),
         (lit ''data/002_Alan_Turing_0123.txt'', lit ''A mathematician.''),
         (lit ''data/003_Alan_Turing_0123.txt'', lit ''A mathematician.'')]"
  have d1: "lit ''data'' \<in> existing empty_world \<or> makedirs_result ?e1 = None"
    and d2: "lit ''data'' \<in> existing empty_world \<or> makedirs_result ?e2 = None"
    by (simp_all add: env_of_def)
  have s1: "\<forall>k<0. ending_of (iter ?e1 k) = Skipped" by simp
  have w1: "\<forall>k\<ge>0. ending_of (iter ?e1 k) = Written" by (simp add: env_of_def ending_good)
  have s2: "\<forall>k<2. ending_of (iter ?e2 k) = Skipped" by (simp add: env_of_def ending_missing)
  have w2: "\<forall>k\<ge>2. ending_of (iter ?e2 k) = Written" by (simp add: env_of_def ending_good)
  have N: "0 < (3::int)" by simp
  have ug: "unique_id_of good_iteration = lit ''0123''"
    by (rule unique_id_stub) (simp add: good_iteration_def)
  have um: "unique_id_of missing_iteration = lit ''0123''"
    by (rule unique_id_stub) (simp add: missing_iteration_def good_iteration_def)
  have a1: "topic = lit ''Alan Turing'' \<and> content = lit ''A mathematician.'' \<and>
      unique_id_of (iter ?e1 j) = lit ''0123''"
    if "outcome (fetch_of (iter ?e1 j)) = Inr (Some (topic, content))" for j topic content
    using that by (simp add: env_of_def fetch_good ug)
  have a2: "topic = lit ''Alan Turing'' \<and> content = lit ''A mathematician.'' \<and>
      unique_id_of (iter ?e2 j) = lit ''0123''"
    if "outcome (fetch_of (iter ?e2 j)) = Inr (Some (topic, content))" for j topic content
    using that by (cases "j < 2") (simp_all add: env_of_def fetch_good fetch_missing ug um)
  have fin: "written s = ?files"
    if l: "length (written_in_run empty_world s) = nat 3"
      and ws: "written s = written empty_world @ written_in_run empty_world s"
      and n: "\<forall>i<nat 3.
        (\<exists>j topic content.
           outcome (fetch_of (iter e j)) = Inr (Some (topic, content)) \<and>
           written_in_run empty_world s ! i =
             (os_path_join (lit ''data'')
                (format_03d (int i + 1) @ [95] @ base_name_of topic @ [95] @
                 unique_id_of (iter e j) @ lit ''.txt''), content))
        \<and> decimal_value (format_03d (int i + 1)) = i + 1
        \<and> set (format_03d (int i + 1)) \<subseteq> set (lit ''0123456789'')
        \<and> 3 \<le> length (format_03d (int i + 1))
        \<and> (i + 1 < 1000 \<longrightarrow> length (format_03d (int i + 1)) = 3)"
      and ax: "\<And>j topic content. outcome (fetch_of (iter e j)) = Inr (Some (topic, content)) \<Longrightarrow>
        topic = lit ''Alan Turing'' \<and> content = lit ''A mathematician.'' \<and>
        unique_id_of (iter e j) = lit ''0123''"
    for s :: state and e
  proof -
    have el: "written_in_run empty_world s ! i =
        (os_path_join (lit ''data'')
                (format_03d (int i + 1) @ [95] @ base_name_of (lit ''Alan Turing'') @ [95] @
                 lit ''0123'' @ lit ''.txt''), lit ''A mathematician.'')" if "i < 3" for i
    proof -
      from that have "i < nat 3" by simp
      with n obtain j topic content where
        o: "outcome (fetch_of (iter e j)) = Inr (Some (topic, content))"
        and v: "written_in_run empty_world s ! i =
             (os_path_join (lit ''data'')
                (format_03d (int i + 1) @ [95] @ base_name_of topic @ [95] @
                 unique_id_of (iter e j) @ lit ''.txt''), content)"
        by blast
      from ax [OF o] v show ?thesis by simp
    qed
    have i0: "int 0 + 1 = 1" and i1: "int 1 + 1 = 2" and i2: "int 2 + 1 = 3" by simp_all
    have lt: "(0::nat) < 3" "(1::nat) < 3" "(2::nat) < 3" by simp_all
    from el [OF lt(1)]
    have "written_in_run empty_world s ! 0 =
        (lit ''data/001_Alan_Turing_0123.txt'', lit ''A mathematician.'')"
      unfolding i0 format_03d_1 stub_name_1 .
    then have 0: "written_in_run empty_world s ! 0 = ?files ! 0" by simp
    from el [OF lt(2)]
    have "written_in_run empty_world s ! 1 =
        (lit ''data/002_Alan_Turing_0123.txt'', lit ''A mathematician.'')"
      unfolding i1 format_03d_2 stub_name_2 .
    then have 1: "written_in_run empty_world s ! 1 = ?files ! 1" by simp
    from el [OF lt(3)]
    have "written_in_run empty_world s ! 2 =
        (lit ''data/003_Alan_Turing_0123.txt'', lit ''A mathematician.'')"
      unfolding i2 format_03d_3 stub_name_3 .
    then have 2: "written_in_run empty_world s ! 2 = ?files ! 2" by simp
    have "written_in_run empty_world s = ?files"
    proof (rule nth_equalityI)
      show "length (written_in_run empty_world s) = length ?files" using l by simp
      fix i assume "i < length (written_in_run empty_world s)"
      with l have "i = 0 \<or> i = 1 \<or> i = 2" by auto
      with 0 1 2 show "written_in_run empty_world s ! i = ?files ! i" by blast
    qed
    with ws show ?thesis by (simp add: empty_world_def)
  qed
  from generate_counts [OF N d1 s1 w1] obtain sa where
    ca: "create_wiki_files ?e1 empty_world (lit ''data'') 3 = Some (Inr sa)"
    "files_created sa = 3" "attempts sa = 3 + int 0"
    and wa: "written sa = written empty_world @ written_in_run empty_world sa"
    and la: "length (written_in_run empty_world sa) = nat 3"
    and na: "\<forall>i<nat 3.
        (\<exists>j topic content.
           outcome (fetch_of (iter ?e1 j)) = Inr (Some (topic, content)) \<and>
           written_in_run empty_world sa ! i =
             (os_path_join (lit ''data'')
                (format_03d (int i + 1) @ [95] @ base_name_of topic @ [95] @
                 unique_id_of (iter ?e1 j) @ lit ''.txt''), content))
        \<and> decimal_value (format_03d (int i + 1)) = i + 1
        \<and> set (format_03d (int i + 1)) \<subseteq> set (lit ''0123456789'')
        \<and> 3 \<le> length (format_03d (int i + 1))
        \<and> (i + 1 < 1000 \<longrightarrow> length (format_03d (int i + 1)) = 3)"
    by blast
  from generate_counts [OF N d2 s2 w2] obtain sb where
    cb: "create_wiki_files ?e2 empty_world (lit ''data'') 3 = Some (Inr sb)"
    "files_created sb = 3" "attempts sb = 3 + int 2"
    and wb: "written sb = written empty_world @ written_in_run empty_world sb"
    and lb: "length (written_in_run empty_world sb) = nat 3"
    and nb: "\<forall>i<nat 3.
        (\<exists>j topic content.
           outcome (fetch_of (iter ?e2 j)) = Inr (Some (topic, content)) \<and>
           written_in_run empty_world sb ! i =
             (os_path_join (lit ''data'')
                (format_03d (int i + 1) @ [95] @ base_name_of topic @ [95] @
                 unique_id_of (iter ?e2 j) @ lit ''.txt''), content))
        \<and> decimal_value (format_03d (int i + 1)) = i + 1
        \<and> set (format_03d (int i + 1)) \<subseteq> set (lit ''0123456789'')
        \<and> 3 \<le> length (format_03d (int i + 1))
        \<and> (i + 1 < 1000 \<longrightarrow> length (format_03d (int i + 1)) = 3)"
    by blast
  from fin [OF la wa na a1] have fa: "written sa = ?files" .
  from fin [OF lb wb nb a2] have fb: "written sb = ?files" .
  from ca fa have A: "\<exists>s. create_wiki_files ?e1 empty_world (lit ''data'') 3 = Some (Inr s) \<and>
      files_created s = 3 \<and> attempts s = 3 \<and> written s = ?files" by simp
  from cb fb have B: "\<exists>s. create_wiki_files ?e2 empty_world (lit ''data'') 3 = Some (Inr s) \<and>
      files_created s = 3 \<and> attempts s = 5 \<and> written s = ?files" by simp
  from A B show ?thesis by blast
qed

lemma while_loop_exit_only:
  assumes "while_loop env f N k s = Some r"
  shows "\<forall>s'. r = Inr s' \<longrightarrow> \<not> files_created s' < N"
  using assms
proof (induction env f N k s r rule: while_loop.raw_induct [rotated, consumes 1, case_names step])
  case (step w env f N k s r)
  show ?case
  proof (cases "files_created s < N")
    case False
    with step(2) show ?thesis by auto
  next
    case True
    show ?thesis
    proof (cases "loop_body f N (iter env k) s")
      case (Inl e)
      with True step(2) show ?thesis by auto
    next
      case (Inr s1)
      with True step(2) have "w env f N (Suc k) s1 = Some r" by simp
      from step(1) [OF this] show ?thesis .
    qed
  qed
qed

text \<open>
  Claim C6: an iteration whose write raises an \<open>IOError\<close> prints the line
  \<open>Error creating file\<close>, the file name, a colon and the text of the error, leaves \<open>files_created\<close> and the files as they were (the
  increment of line 57 is taken back by line 74), counts as an attempt, and the loop
  goes on with the next iteration. However many writes fail, as long as no exception
  leaves the loop and iterations that write a file keep coming, the run returns with
  \<open>files_created\<close> equal to the positive target \<open>N\<close> and \<open>N\<close> files written.
\<close>

theorem write_failure_retried:
  assumes "0 < N"
    and "output_folder \<in> existing w \<or> makedirs_result env = None"
    and "\<forall>k. ending_of (iter env k) \<noteq> Raised"
    and "\<forall>k. \<exists>k'\<ge>k. ending_of (iter env k') = Written"
  shows "(\<forall>k (s::state). ending_of (iter env k) = WriteFailed \<and> files_created s < N \<longrightarrow>
            (\<exists>s' topic content m.
               outcome (fetch_of (iter env k)) = Inr (Some (topic, content)) \<and>
               write_result (iter env k) = Some (IOError m) \<and>
               loop_body output_folder N (iter env k) s = Inr s' \<and>
               files_created s' = files_created s \<and> written s' = written s \<and>
               attempts s' = attempts s + 1 \<and>
               stdout s' = stdout s @ printed (fetch_of (iter env k)) @
                 [lit ''Error creating file '' @
                  os_path_join output_folder
                    (format_03d (files_created s + 1) @ [95] @ base_name_of topic @ [95] @
                     unique_id_of (iter env k) @ lit ''.txt'') @
                  lit '': '' @ m] \<and>
               while_loop env output_folder N k s = while_loop env output_folder N (Suc k) s'))
     \<and> (\<exists>s. create_wiki_files env w output_folder N = Some (Inr s) \<and>
            files_created s = N \<and> length (written_in_run w s) = nat N)"
proof (intro conjI allI impI)
  fix k and s :: state
  assume h: "ending_of (iter env k) = WriteFailed \<and> files_created s < N"
  from loop_body_WriteFailed [of "iter env k" output_folder N s] h
  obtain topic content m s' where
    1: "outcome (fetch_of (iter env k)) = Inr (Some (topic, content))"
      "write_result (iter env k) = Some (IOError m)"
      "loop_body output_folder N (iter env k) s = Inr s'"
      "attempts s' = attempts s + 1" "files_created s' = files_created s"
      "written s' = written s"
    and 2: "stdout s' = stdout s @ printed (fetch_of (iter env k)) @
        [write_error_message (file_name_of output_folder (files_created s + 1) (base_name_of topic)
           (unique_id_of (iter env k))) (IOError m)]"
    by blast
  from 2 have 3: "stdout s' = stdout s @ printed (fetch_of (iter env k)) @
                 [lit ''Error creating file '' @
                  os_path_join output_folder
                    (format_03d (files_created s + 1) @ [95] @ base_name_of topic @ [95] @
                     unique_id_of (iter env k) @ lit ''.txt'') @
                  lit '': '' @ m]"
    by (simp add: write_error_message_def file_name_of_def)
  from h have "files_created s < N" by simp
  from while_loop_step [OF this 1(3)]
  have "while_loop env output_folder N k s = while_loop env output_folder N (Suc k) s'" .
  with 1 3 show "\<exists>s' topic content m.
               outcome (fetch_of (iter env k)) = Inr (Some (topic, content)) \<and>
               write_result (iter env k) = Some (IOError m) \<and>
               loop_body output_folder N (iter env k) s = Inr s' \<and>
               files_created s' = files_created s \<and> written s' = written s \<and>
               attempts s' = attempts s + 1 \<and>
               stdout s' = stdout s @ printed (fetch_of (iter env k)) @
                 [lit ''Error creating file '' @
                  os_path_join output_folder
                    (format_03d (files_created s + 1) @ [95] @ base_name_of topic @ [95] @
                     unique_id_of (iter env k) @ lit ''.txt'') @
                  lit '': '' @ m] \<and>
               while_loop env output_folder N k s = while_loop env output_folder N (Suc k) s'"
    by blast
next
  from assms(1) have N0: "0 \<le> N" by simp
  from run_terminates [OF assms(2,3,4) N0] obtain s0 k s where
    p: "prologue env w output_folder N = Inr s0"
    and a: "after_iterations env output_folder N s0 k = Some s"
    and fc: "files_created s = N"
    and c: "create_wiki_files env w output_folder N =
       Some (Inr (s\<lparr>stdout := stdout s @ [final_message (files_created s) (attempts s)]\<rparr>))"
    by blast
  let ?s = "s\<lparr>stdout := stdout s @ [final_message (files_created s) (attempts s)]\<rparr>"
  from run_facts(2) [OF p a] fc have "length (written_in_run w s) = nat N" by simp
  then have "length (written_in_run w ?s) = nat N" by (simp add: written_in_run_def)
  moreover have "files_created ?s = N" using fc by simp
  ultimately show "\<exists>s. create_wiki_files env w output_folder N = Some (Inr s) \<and>
            files_created s = N \<and> length (written_in_run w s) = nat N"
    using c by blast
qed

theorem write_failure_retried_witness:
  "(\<exists>s'. loop_body (lit ''data'') 2 failing_write_iteration empty_world = Inr s' \<and>
        files_created s' = 0 \<and> written s' = [] \<and> attempts s' = 1 \<and>
        stdout s' =
          [lit ''Error creating file data/001_Alan_Turing_0123.txt: No space left on device''])
   \<and> (\<exists>s. create_wiki_files (env_of (\<lambda>k. if k = 0 then failing_write_iteration else good_iteration))
           empty_world (lit ''data'') 2 = Some (Inr s) \<and>
         files_created s = 2 \<and> length (written_in_run empty_world s) = 2)"
proof -
  let ?env = "env_of (\<lambda>k. if k = 0 then failing_write_iteration else good_iteration)"
  have N: "0 < (2::int)" by simp
  have d: "lit ''data'' \<in> existing empty_world \<or> makedirs_result ?env = None"
    by (simp add: env_of_def)
  have nr: "\<forall>k. ending_of (iter ?env k) \<noteq> Raised"
    by (simp add: env_of_def ending_good ending_failing_write)
  have inf: "\<forall>k. \<exists>k'\<ge>k. ending_of (iter ?env k') = Written"
  proof
    fix k
    have "k \<le> Suc k" "ending_of (iter ?env (Suc k)) = Written"
      by (simp_all add: env_of_def ending_good)
    then show "\<exists>k'\<ge>k. ending_of (iter ?env k') = Written" by blast
  qed
  note t = write_failure_retried [OF N d nr inf]
  have i0: "iter ?env 0 = failing_write_iteration" by (simp add: env_of_def)
  have h: "ending_of (iter ?env 0) = WriteFailed \<and> files_created empty_world < 2"
    unfolding i0 by (simp add: ending_failing_write empty_world_def)
  have f: "fetch_of failing_write_iteration = fetch_of good_iteration"
    by (simp add: fetch_of_def failing_write_iteration_def)
  have wr: "write_result failing_write_iteration = Some (IOError (lit ''No space left on device''))"
    by (simp add: failing_write_iteration_def)
  have u: "unique_id_of failing_write_iteration = lit ''0123''"
    by (rule unique_id_stub) (simp add: failing_write_iteration_def good_iteration_def)
  from t [THEN conjunct1, THEN spec, THEN spec, THEN mp, OF h]
  obtain s' topic content m where
    o: "outcome (fetch_of failing_write_iteration) = Inr (Some (topic, content))"
    and w: "write_result failing_write_iteration = Some (IOError m)"
    and b: "loop_body (lit ''data'') 2 failing_write_iteration empty_world = Inr s'"
    and c: "files_created s' = files_created empty_world" "written s' = written empty_world"
      "attempts s' = attempts empty_world + 1"
    and l: "stdout s' = stdout empty_world @ printed (fetch_of failing_write_iteration) @
                 [lit ''Error creating file '' @
                  os_path_join (lit ''data'')
                    (format_03d (files_created empty_world + 1) @ [95] @ base_name_of topic @ [95] @
                     unique_id_of failing_write_iteration @ lit ''.txt'') @
                  lit '': '' @ m]"
    unfolding i0 by blast
  from o have tp: "topic = lit ''Alan Turing''" by (simp add: f fetch_good)
  from w have m: "m = lit ''No space left on device''" by (simp add: wr)
  have fc0: "files_created empty_world + 1 = 1" by (simp add: empty_world_def)
  have "stdout s' =
          [lit ''Error creating file data/001_Alan_Turing_0123.txt: No space left on device'']"
    unfolding l tp m u fc0 format_03d_1 stub_name_1
    by (simp add: f fetch_good empty_world_def) (simp add: lit_def)
  with b c have 1: "\<exists>s'. loop_body (lit ''data'') 2 failing_write_iteration empty_world = Inr s' \<and>
        files_created s' = 0 \<and> written s' = [] \<and> attempts s' = 1 \<and>
        stdout s' =
          [lit ''Error creating file data/001_Alan_Turing_0123.txt: No space left on device'']"
    by (auto simp: empty_world_def)
  from t [THEN conjunct2]
  have 2: "\<exists>s. create_wiki_files ?env empty_world (lit ''data'') 2 = Some (Inr s) \<and>
         files_created s = 2 \<and> length (written_in_run empty_world s) = 2"
    by simp
  from 1 2 show ?thesis by blast
qed


text \<open>
  Claim C7: the loop is left exactly when \<open>files_created\<close> is no longer below the
  target, and a run with a target that is not negative returns with \<open>files_created\<close>
  equal to it. Nothing bounds the number of attempts: for a positive target, when in
  every iteration the fetch returns \<open>None\<close> or the write raises an \<open>IOError\<close>, the
  run never returns. When no exception leaves the loop and iterations that write a file
  keep coming, the run returns, with \<open>files_created\<close> equal to the target.
\<close>

theorem loop_exit_and_divergence:
  "(\<not> files_created s < N \<longrightarrow> while_loop env output_folder N k s = Some (Inr s))
   \<and> (\<forall>s'. while_loop env output_folder N k s = Some (Inr s') \<longrightarrow> \<not> files_created s' < N)
   \<and> (\<forall>s'. 0 \<le> N \<and> create_wiki_files env w output_folder N = Some (Inr s') \<longrightarrow>
          files_created s' = N)
   \<and> (0 < N \<and> (output_folder \<in> existing w \<or> makedirs_result env = None) \<and>
       (\<forall>j. ending_of (iter env j) = Skipped \<or> ending_of (iter env j) = WriteFailed) \<longrightarrow>
         create_wiki_files env w output_folder N = None)
   \<and> (0 < N \<and> (output_folder \<in> existing w \<or> makedirs_result env = None) \<and>
       (\<forall>j. ending_of (iter env j) \<noteq> Raised) \<and>
       (\<forall>j. \<exists>j'\<ge>j. ending_of (iter env j') = Written) \<longrightarrow>
         (\<exists>s'. create_wiki_files env w output_folder N = Some (Inr s') \<and> files_created s' = N))"
proof (intro conjI allI impI)
  assume "\<not> files_created s < N"
  then show "while_loop env output_folder N k s = Some (Inr s)" by (rule while_loop_exit)
next
  fix s' assume "while_loop env output_folder N k s = Some (Inr s')"
  from while_loop_exit_only [OF this] show "\<not> files_created s' < N" by simp
next
  fix s' assume h: "0 \<le> N \<and> create_wiki_files env w output_folder N = Some (Inr s')"
  then have "create_wiki_files env w output_folder N = Some (Inr s')" by simp
  from run_result [OF this] obtain s0 k1 s1 where
    p: "prologue env w output_folder N = Inr s0"
    and a: "after_iterations env output_folder N s0 k1 = Some s1"
    and e: "\<not> files_created s1 < N"
    and s': "s' = s1\<lparr>stdout := stdout s1 @ [final_message (files_created s1) (attempts s1)]\<rparr>"
    by blast
  from h have "0 \<le> N" by simp
  from run_facts(5) [OF p a this] e s' show "files_created s' = N" by simp
next
  assume h: "0 < N \<and> (output_folder \<in> existing w \<or> makedirs_result env = None) \<and>
       (\<forall>j. ending_of (iter env j) = Skipped \<or> ending_of (iter env j) = WriteFailed)"
  then have d: "output_folder \<in> existing w \<or> makedirs_result env = None" by simp
  from prologue_ok [OF d] obtain s0 where p: "prologue env w output_folder N = Inr s0" by blast
  from prologue_Inr [OF p] h have lt: "files_created s0 < N" by simp
  from h have st: "\<forall>j. ending_of (iter env j) = Skipped \<or> ending_of (iter env j) = WriteFailed"
    by simp
  have "\<forall>k. \<exists>s. after_iterations env output_folder N s0 k = Some s \<and> files_created s < N"
    using after_stuck [OF st lt] by blast
  from run_diverges [OF p this] show "create_wiki_files env w output_folder N = None" .
next
  assume h: "0 < N \<and> (output_folder \<in> existing w \<or> makedirs_result env = None) \<and>
       (\<forall>j. ending_of (iter env j) \<noteq> Raised) \<and>
       (\<forall>j. \<exists>j'\<ge>j. ending_of (iter env j') = Written)"
  then have d: "output_folder \<in> existing w \<or> makedirs_result env = None"
    and nr: "\<forall>j. ending_of (iter env j) \<noteq> Raised"
    and inf: "\<forall>j. \<exists>j'\<ge>j. ending_of (iter env j') = Written"
    and N0: "0 \<le> N" by simp_all
  from run_terminates [OF d nr inf N0] obtain s0 k1 s1 where
    fc: "files_created s1 = N"
    and c: "create_wiki_files env w output_folder N =
       Some (Inr (s1\<lparr>stdout := stdout s1 @ [final_message (files_created s1) (attempts s1)]\<rparr>))"
    by blast
  let ?s = "s1\<lparr>stdout := stdout s1 @ [final_message (files_created s1) (attempts s1)]\<rparr>"
  have "files_created ?s = N" using fc by simp
  with c show "\<exists>s'. create_wiki_files env w output_folder N = Some (Inr s') \<and> files_created s' = N"
    by blast
qed

theorem loop_exit_and_divergence_witness:
  "create_wiki_files (env_of (\<lambda>k. missing_iteration)) empty_world (lit ''data'') 1 = None
   \<and> create_wiki_files (env_of (\<lambda>k. failing_write_iteration)) empty_world (lit ''data'') 1 = None
   \<and> (\<exists>s'. create_wiki_files (env_of (\<lambda>k. if even k then missing_iteration else good_iteration))
          empty_world (lit ''data'') 2 = Some (Inr s') \<and> files_created s' = 2)
   \<and> while_loop (env_of (\<lambda>k. missing_iteration)) (lit ''data'') 0 0 empty_world = Some (Inr empty_world)"
proof -
  let ?e1 = "env_of (\<lambda>k. missing_iteration)"
  let ?e2 = "env_of (\<lambda>k. failing_write_iteration)"
  let ?e3 = "env_of (\<lambda>k. if even k then missing_iteration else good_iteration)"
  have h1: "0 < (1::int) \<and> (lit ''data'' \<in> existing empty_world \<or> makedirs_result ?e1 = None) \<and>
       (\<forall>j. ending_of (iter ?e1 j) = Skipped \<or> ending_of (iter ?e1 j) = WriteFailed)"
    by (simp add: env_of_def ending_missing)
  have h2: "0 < (1::int) \<and> (lit ''data'' \<in> existing empty_world \<or> makedirs_result ?e2 = None) \<and>
       (\<forall>j. ending_of (iter ?e2 j) = Skipped \<or> ending_of (iter ?e2 j) = WriteFailed)"
    by (simp add: env_of_def ending_failing_write)
  have inf: "\<exists>j'\<ge>j. ending_of (iter ?e3 j') = Written" for j
  proof -
    have "j \<le> 2 * j + 1" "ending_of (iter ?e3 (2 * j + 1)) = Written"
      by (simp_all add: env_of_def ending_good)
    then show ?thesis by blast
  qed
  have h3: "0 < (2::int) \<and> (lit ''data'' \<in> existing empty_world \<or> makedirs_result ?e3 = None) \<and>
       (\<forall>j. ending_of (iter ?e3 j) \<noteq> Raised) \<and>
       (\<forall>j. \<exists>j'\<ge>j. ending_of (iter ?e3 j') = Written)"
    using inf by (simp add: env_of_def ending_good ending_missing)
  have h4: "\<not> files_created empty_world < 0" by (simp add: empty_world_def)
  note t1 = loop_exit_and_divergence [of empty_world 1 ?e1 "lit ''data''" 0 empty_world]
  note t2 = loop_exit_and_divergence [of empty_world 1 ?e2 "lit ''data''" 0 empty_world]
  note t3 = loop_exit_and_divergence [of empty_world 2 ?e3 "lit ''data''" 0 empty_world]
  note t4 = loop_exit_and_divergence [of empty_world 0 ?e1 "lit ''data''" 0 empty_world]
  from t1 [THEN conjunct2, THEN conjunct2, THEN conjunct2, THEN conjunct1, THEN mp, OF h1]
    t2 [THEN conjunct2, THEN conjunct2, THEN conjunct2, THEN conjunct1, THEN mp, OF h2]
    t3 [THEN conjunct2, THEN conjunct2, THEN conjunct2, THEN conjunct2, THEN mp, OF h3]
    t4 [THEN conjunct1, THEN mp, OF h4]
  show ?thesis by blast
qed

text \<open>
  Claim C10: whenever the loop condition is evaluated, \<open>files_created\<close> is the number
  of files the run has written so far, and the file numbered \<open>i\<close> among them carries
  the index \<open>i + 1\<close>, so that the names are pairwise different. Hence a run with a
  positive target \<open>N\<close> that returns has written exactly \<open>N\<close> files, with the
  indices 1 to \<open>N\<close> in this order, without gap or repetition, also when writes have
  failed in between: the index of a failed write goes to the next file written.
\<close>

theorem files_created_counts_written:
  assumes "prologue env w output_folder N = Inr s0"
  shows "(\<forall>k s. after_iterations env output_folder N s0 k = Some s \<longrightarrow>
            files_created s = int (length (written_in_run w s)) \<and>
            written s = written w @ written_in_run w s \<and>
            distinct (map fst (written_in_run w s)) \<and>
            (\<forall>i<length (written_in_run w s). \<exists>topic u.
               fst (written_in_run w s ! i) =
                 file_name_of output_folder (int i + 1) (base_name_of topic) u
               \<and> decimal_value (format_03d (int i + 1)) = i + 1))
     \<and> (\<forall>s. 0 < N \<and> create_wiki_files env w output_folder N = Some (Inr s) \<longrightarrow>
            length (written_in_run w s) = nat N \<and>
            distinct (map fst (written_in_run w s)) \<and>
            (\<forall>i<nat N. \<exists>topic u.
               fst (written_in_run w s ! i) =
                 file_name_of output_folder (int i + 1) (base_name_of topic) u
               \<and> decimal_value (format_03d (int i + 1)) = i + 1))"
proof (intro conjI allI impI)
  fix k and s :: state
  assume a: "after_iterations env output_folder N s0 k = Some s"
  from run_facts(2) [OF assms a] show "files_created s = int (length (written_in_run w s))"
    by simp
  from run_facts(1) [OF assms a] show "written s = written w @ written_in_run w s" .
  from run_names(1) [OF assms a] show "distinct (map fst (written_in_run w s))" .
  fix i assume "i < length (written_in_run w s)"
  with run_names(2) [OF assms a]
  show "\<exists>topic u. fst (written_in_run w s ! i) =
                 file_name_of output_folder (int i + 1) (base_name_of topic) u
               \<and> decimal_value (format_03d (int i + 1)) = i + 1" by blast
next
  fix s :: state
  assume h: "0 < N \<and> create_wiki_files env w output_folder N = Some (Inr s)"
  then have "create_wiki_files env w output_folder N = Some (Inr s)" by simp
  from run_result [OF this] assms obtain k1 s1 where
    a: "after_iterations env output_folder N s0 k1 = Some s1"
    and e: "\<not> files_created s1 < N"
    and s: "s = s1\<lparr>stdout := stdout s1 @ [final_message (files_created s1) (attempts s1)]\<rparr>"
    by auto
  from h have "0 \<le> N" by simp
  from run_facts(5) [OF assms a this] e have fc: "files_created s1 = N" by simp
  have eq: "written_in_run w s = written_in_run w s1" by (simp add: s written_in_run_def)
  from run_facts(2) [OF assms a] fc have l: "length (written_in_run w s1) = nat N" by simp
  {
    show "length (written_in_run w s) = nat N" using l eq by simp
  next
    show "distinct (map fst (written_in_run w s))" using run_names(1) [OF assms a] eq by simp
  next
    fix i assume "i < nat N"
    with l have "i < length (written_in_run w s1)" by simp
    with run_names(2) [OF assms a]
    show "\<exists>topic u. fst (written_in_run w s ! i) =
                 file_name_of output_folder (int i + 1) (base_name_of topic) u
               \<and> decimal_value (format_03d (int i + 1)) = i + 1"
      unfolding eq by blast
  }
qed

theorem files_created_counts_written_witness:
  "\<exists>s0 s1 s. prologue (env_of (\<lambda>k. if k = 1 then failing_write_iteration else good_iteration))
             empty_world (lit ''data'') 2 = Inr s0
     \<and> after_iterations (env_of (\<lambda>k. if k = 1 then failing_write_iteration else good_iteration))
             (lit ''data'') 2 s0 2 = Some s1
     \<and> files_created s1 = 1 \<and> length (written_in_run empty_world s1) = 1
     \<and> create_wiki_files (env_of (\<lambda>k. if k = 1 then failing_write_iteration else good_iteration))
             empty_world (lit ''data'') 2 = Some (Inr s)
     \<and> length (written_in_run empty_world s) = 2
     \<and> distinct (map fst (written_in_run empty_world s))"
proof -
  let ?env = "env_of (\<lambda>k. if k = 1 then failing_write_iteration else good_iteration)"
  have d: "lit ''data'' \<in> existing empty_world \<or> makedirs_result ?env = None"
    by (simp add: env_of_def)
  have nr: "\<forall>k. ending_of (iter ?env k) \<noteq> Raised"
    by (simp add: env_of_def ending_good ending_failing_write)
  have inf: "\<forall>k. \<exists>k'\<ge>k. ending_of (iter ?env k') = Written"
  proof
    fix k
    have "k \<le> k + 2" "ending_of (iter ?env (k + 2)) = Written"
      by (simp_all add: env_of_def ending_good)
    then show "\<exists>k'\<ge>k. ending_of (iter ?env k') = Written" by blast
  qed
  have N0: "0 \<le> (2::int)" by simp
  from run_terminates [OF d nr inf N0] obtain s0 s where
    p: "prologue ?env empty_world (lit ''data'') 2 = Inr s0"
    and c: "create_wiki_files ?env empty_world (lit ''data'') 2 = Some (Inr s)"
    by blast
  note q = prologue_Inr [OF p]
  have a0: "after_iterations ?env (lit ''data'') 2 s0 0 = Some s0" by simp
  have g0: "files_created s0 < 2" using q by simp
  have e0: "ending_of (iter ?env 0) \<noteq> Raised" using nr by blast
  from after_progress [OF a0 g0 e0] obtain sa where
    a1: "after_iterations ?env (lit ''data'') 2 s0 (Suc 0) = Some sa" by blast
  have "filter (\<lambda>j. ending_of (iter ?env j) = Written) [0..<Suc 0] = [0]"
    by (simp add: env_of_def ending_good)
  with after_count [OF a1] q have g1: "files_created sa < 2" by simp
  have e1: "ending_of (iter ?env (Suc 0)) \<noteq> Raised" using nr by blast
  from after_progress [OF a1 g1 e1] obtain s1 where
    a2: "after_iterations ?env (lit ''data'') 2 s0 (Suc (Suc 0)) = Some s1" by blast
  have a2': "after_iterations ?env (lit ''data'') 2 s0 2 = Some s1"
    using a2 by (simp add: numeral_2_eq_2)
  note t = files_created_counts_written [OF p]
  from t [THEN conjunct1, THEN spec, THEN spec, THEN mp, OF a2']
  have i: "files_created s1 = int (length (written_in_run empty_world s1))" by blast
  have "filter (\<lambda>j. ending_of (iter ?env j) = Written) [0..<Suc (Suc 0)] = [0]"
    by (simp add: env_of_def ending_good ending_failing_write)
  with after_count [OF a2] q have fc: "files_created s1 = 1" by simp
  with i have l1: "length (written_in_run empty_world s1) = 1" by simp
  have h: "0 < (2::int) \<and> create_wiki_files ?env empty_world (lit ''data'') 2 = Some (Inr s)"
    using c by simp
  from t [THEN conjunct2, THEN spec, THEN mp, OF h]
  have "length (written_in_run empty_world s) = 2"
    "distinct (map fst (written_in_run empty_world s))" by simp_all
  with p a2' fc l1 c show ?thesis by blast
qed

end
